theory Spec2Isabelle
  imports Complex_Main "HOL-Library.AList"
begin

section \<open>The notification centre of \<^verbatim>\<open>agentsolvr/electron/notifications.py\<close>\<close>

text \<open>
  A shallow embedding of \<^verbatim>\<open>NotificationCenter\<close>. Every method takes the centre's
  state and returns its result together with the new state. An exception a method lets
  escape is a value (\<open>Inl\<close>) of its result, returned with the state the centre is left
  in. Python integers are \<open>int\<close>; Python floats are IEEE 754 doubles, with the rounding
  of every division and multiplication. Each method is one atomic step: the worker thread,
  the timer threads and the callers are interleaved at the granularity of method calls and
  loop iterations.
\<close>

subsection \<open>Data model\<close>

datatype NotificationType =
  INFO | SUCCESS | WARNING | ERROR | PROGRESS | CLAUDE_ACTIVITY | SYSTEM_STATUS
  | USER_ACTION_REQUIRED

datatype NotificationPriority = LOW | NORMAL | HIGH | CRITICAL | URGENT

text \<open>\<^verbatim>\<open>NotificationPriority.<member>.value\<close>.\<close>

fun priority_value :: "NotificationPriority \<Rightarrow> int" where
  "priority_value LOW = 1"
| "priority_value NORMAL = 2"
| "priority_value HIGH = 3"
| "priority_value CRITICAL = 4"
| "priority_value URGENT = 5"

datatype TrayIconStatus = TRAY_IDLE | TRAY_ACTIVE | TRAY_WORKING | TRAY_ERROR | TRAY_OFFLINE

text \<open>
  The exceptions that leave a method of the centre. \<open>BaseException name\<close> is an exception
  of a class outside \<^verbatim>\<open>Exception\<close> (\<^verbatim>\<open>KeyboardInterrupt\<close>, \<^verbatim>\<open>SystemExit\<close>,
  \<^verbatim>\<open>GeneratorExit\<close> or a class derived from \<^verbatim>\<open>BaseException\<close> alone), by the name of
  its class; the four others are classes derived from \<^verbatim>\<open>Exception\<close>.
\<close>

datatype py_error =
  ZeroDivisionError | TypeError | ValueError | OverflowError | BaseException string

text \<open>
  A user-supplied callback is called with the notification and a reason. What the centre
  sees of the call is whether it returns or raises. \<open>Raises msg\<close> is an instance of
  \<^verbatim>\<open>Exception\<close> whose text is \<open>msg\<close>, the class the handlers of the centre name
  (\<^verbatim>\<open>except Exception as e\<close>); \<open>RaisesBase name\<close> is an exception of the class \<open>name\<close>
  outside \<^verbatim>\<open>Exception\<close>, which those handlers do not catch. A callback does not call
  back into the centre.
\<close>

datatype callback_outcome = Returns | Raises string | RaisesBase string

text \<open>
  \<^verbatim>\<open>NotificationAction\<close>; its callback is a bound method of the centre, named here
  by the method's name.
\<close>

record NotificationAction =
  action_id :: string
  action_label :: string
  action_type :: string
  action_callback :: "string option"
  action_style :: string

text \<open>
  The \<^verbatim>\<open>details\<close> dictionary of \<^verbatim>\<open>show_claude_notification\<close>, by the keys the method
  reads, typed as \<^verbatim>\<open>ClaudeNotificationHelper\<close> fills them; \<open>None\<close> is an absent key.
\<close>

record details =
  tokens_used :: "int option"
  cost_estimate :: "real option"
  error_text :: "string option"
  message_text :: "string option"

definition no_details :: details where
  "no_details =
     \<lparr>tokens_used = None, cost_estimate = None, error_text = None, message_text = None\<rparr>"

text \<open>
  \<^verbatim>\<open>DesktopNotification\<close>. \<open>click_callback\<close> is an opaque handle (the centre only
  passes it on); \<open>dismiss_callback\<close> maps the reason it is called with to what the call
  does. A field that holds a float (\<open>timestamp\<close>, \<open>progress_value\<close>) holds its value:
  the centre compares and stores these floats and computes nothing from them, and two
  finite floats are equal or in order as their values are. A timestamp that is an infinity
  or not a number is outside the model.
\<close>

record DesktopNotification =
  nid :: string
  title :: string
  message :: string
  ntype :: NotificationType
  priority :: NotificationPriority
  timestamp :: real
  duration :: int
  sound :: bool
  badge_count :: "int option"
  icon :: "string option"
  image :: "string option"
  actions :: "NotificationAction list"
  click_callback :: "string option"
  dismiss_callback :: "(string \<Rightarrow> callback_outcome) option"
  progress_value :: "real option"
  progress_text :: "string option"
  group_id :: "string option"
  replace_id :: "string option"
  source :: string
  tags :: "string list"
  data :: details

text \<open>\<^verbatim>\<open>TrayNotification\<close> of \<^verbatim>\<open>system_tray.py\<close>, as the centre builds it.\<close>

record TrayNotification =
  tray_title :: string
  tray_body :: string
  tray_timeout :: int
  tray_click_handler :: "string option"

text \<open>
  The tray is a collaborator handed to the constructor. The centre calls two of its
  methods, which return nothing and raise nothing (\<^verbatim>\<open>system_tray.py\<close>); the model keeps
  the calls made, in order.
\<close>

datatype tray_call =
  TrayShowNotification TrayNotification
  | TrayUpdateStatus TrayIconStatus string

record center_config =
  max_simultaneous :: int
  queue_size_limit :: int
  history_limit :: int
  batch_similar_notifications :: bool
  smart_timing :: bool
  do_not_disturb_hours :: "(int \<times> int) option"
  priority_escalation :: bool

record center_stats =
  total_sent :: int
  dismissed_count :: int
  action_clicks :: int
  claude_notifications :: int
  system_notifications :: int

text \<open>
  An entry of the queue is the tuple \<^verbatim>\<open>(priority_value, notification)\<close> that
  \<^verbatim>\<open>show_notification\<close> puts, with \<^verbatim>\<open>priority_value = (100 - priority.value, timestamp)\<close>.
\<close>

type_synonym queue_key = "int \<times> real"
type_synonym queue_entry = "queue_key \<times> DesktopNotification"

text \<open>
  A record written with \<^verbatim>\<open>logger.error\<close>: by \<^verbatim>\<open>_dismiss_notification\<close>, with the
  text of what the callback raised, or by the worker's loop, with the exception it caught.
\<close>

datatype error_record =
  ErrorInDismissCallback string
  | ErrorProcessingQueue py_error

text \<open>
  The state of a \<^verbatim>\<open>NotificationCenter\<close>. \<open>active_notifications\<close> is the dictionary, in
  insertion order; \<open>notification_queue\<close> is the list of the priority queue and
  \<open>unfinished_tasks\<close> its counter of that name. The last five fields are what the centre does to its surroundings:
  the calls made on the tray, the dismiss callbacks called (notification id and reason),
  the records written with \<^verbatim>\<open>logger.error\<close>, the auto-dismiss threads started and not yet
  woken (notification id and duration) and the do-not-disturb threads started and not yet
  woken (minutes).
\<close>

record center =
  active_notifications :: "(string \<times> DesktopNotification) list"
  notification_queue :: "queue_entry list"
  unfinished_tasks :: int
  notification_history :: "DesktopNotification list"
  config :: center_config
  is_active :: bool
  do_not_disturb :: bool
  stats :: center_stats
  tray_calls :: "tray_call list"
  callback_calls :: "(string \<times> string) list"
  error_log :: "error_record list"
  dismiss_timers :: "(string \<times> int) list"
  dnd_timers :: "int list"


subsection \<open>Python numbers\<close>

text \<open>
  A Python float is an IEEE 754 double: a sign and a magnitude, an infinity, or not a
  number. In \<open>FloatFinite negative m\<close> the magnitude \<open>m\<close> is the value of the double without
  its sign, so that \<open>FloatFinite False 0\<close> and \<open>FloatFinite True 0\<close> are the two zeros. An
  argument annotated \<^verbatim>\<open>float\<close> is a float or an integer.
\<close>

datatype py_float = FloatFinite bool real | FloatInf bool | FloatNaN

datatype py_number = PyInt int | PyFloat py_float

definition signed :: "bool \<Rightarrow> real \<Rightarrow> real" where
  "signed negative m = (if negative then - m else m)"

text \<open>The double whose value is the real \<open>x\<close>, for an \<open>x\<close> that is the value of a double.\<close>

definition float_of_real :: "real \<Rightarrow> py_float" where
  "float_of_real x = FloatFinite (x < 0) \<bar>x\<bar>"

text \<open>
  Rounding to the nearest double, ties to the even mantissa. The binary exponent of a
  positive real \<open>x\<close> is the \<open>e\<close> with \<open>2 powi e \<le> x < 2 powi (e + 1)\<close>, found by halving
  or doubling \<open>x\<close>; a double has 53 bits of mantissa, and exponents below \<open>- 1022\<close> share
  the spacing of \<open>- 1022\<close> (the subnormal numbers). A result of \<open>2 powi 1024\<close> or more is
  beyond the largest double.
\<close>

function halvings :: "real \<Rightarrow> nat" where
  "halvings x = (if x < 2 then 0 else Suc (halvings (x / 2)))"
  by pat_completeness auto
termination
proof (relation "measure (\<lambda>x. nat \<lfloor>x\<rfloor>)")
  show "wf (measure (\<lambda>x::real. nat \<lfloor>x\<rfloor>))" by simp
next
  fix x :: real
  assume "\<not> x < 2"
  then have "x / 2 \<le> x - 1" by simp
  then have "\<lfloor>x / 2\<rfloor> \<le> \<lfloor>x - 1\<rfloor>" by (rule floor_mono)
  then have "\<lfloor>x / 2\<rfloor> < \<lfloor>x\<rfloor>" by simp
  moreover from \<open>\<not> x < 2\<close> have "0 < \<lfloor>x\<rfloor>" by simp
  ultimately show "(x / 2, x) \<in> measure (\<lambda>x. nat \<lfloor>x\<rfloor>)" by simp
qed

function doublings :: "real \<Rightarrow> nat" where
  "doublings x = (if 1 \<le> x \<or> x \<le> 0 then 0 else Suc (doublings (x * 2)))"
  by pat_completeness auto
termination
proof (relation "measure (\<lambda>x. nat \<lceil>1 / x\<rceil>)")
  show "wf (measure (\<lambda>x::real. nat \<lceil>1 / x\<rceil>))" by simp
next
  fix x :: real
  assume a: "\<not> (1 \<le> x \<or> x \<le> 0)"
  then have x: "0 < x" "x < 1" by simp_all
  then have y: "1 < 1 / x" by simp
  have "\<lceil>1 / (x * 2)\<rceil> < \<lceil>1 / x\<rceil>"
  proof (cases "1 / x \<le> 2")
    case True
    then have "1 / (x * 2) \<le> 1" using x by (simp add: field_simps)
    then have "\<lceil>1 / (x * 2)\<rceil> \<le> 1" by (simp add: ceiling_le_iff)
    moreover from y le_of_int_ceiling [of "1 / x"] have "1 < \<lceil>1 / x\<rceil>" by linarith
    ultimately show ?thesis by linarith
  next
    case False
    then have "1 / (x * 2) \<le> 1 / x - 1" using x by (simp add: field_simps)
    then have "\<lceil>1 / (x * 2)\<rceil> \<le> \<lceil>1 / x - 1\<rceil>" by (rule ceiling_mono)
    then show ?thesis by simp
  qed
  moreover from y le_of_int_ceiling [of "1 / x"] have "0 < \<lceil>1 / x\<rceil>" by linarith
  ultimately show "(x * 2, x) \<in> measure (\<lambda>x. nat \<lceil>1 / x\<rceil>)" by simp
qed

declare halvings.simps [simp del] doublings.simps [simp del]

definition binary_exponent :: "real \<Rightarrow> int" where
  "binary_exponent x = (if 1 \<le> x then int (halvings x) else - int (doublings x))"

definition round_half_even :: "real \<Rightarrow> int" where
  "round_half_even q =
     (let f = \<lfloor>q\<rfloor>; r = q - of_int f
      in if r < 1 / 2 then f else if 1 / 2 < r then f + 1 else if even f then f else f + 1)"

text \<open>The spacing of the doubles around \<open>x\<close>.\<close>

definition quantum :: "real \<Rightarrow> real" where
  "quantum x = 2 powi (max (binary_exponent x) (- 1022) - 52)"

definition round_to_quantum :: "real \<Rightarrow> real" where
  "round_to_quantum x = of_int (round_half_even (x / quantum x)) * quantum x"

text \<open>The magnitude of the double nearest to a magnitude; \<open>None\<close> when it overflows.\<close>

definition round_magnitude :: "real \<Rightarrow> real option" where
  "round_magnitude x =
     (if 2 powi 1024 \<le> round_to_quantum x then None else Some (round_to_quantum x))"


text \<open>
  The conversion of an integer to a float, as \<^verbatim>\<open>float.__truediv__\<close>, \<^verbatim>\<open>float.__mul__\<close>
  and \<^verbatim>\<open>format\<close> make it: the nearest double, and \<^verbatim>\<open>OverflowError\<close> when there is none.
\<close>

definition float_of_int :: "int \<Rightarrow> py_error + py_float" where
  "float_of_int i =
     (case round_magnitude \<bar>of_int i\<bar> of
        None \<Rightarrow> Inl OverflowError
      | Some m \<Rightarrow> Inr (FloatFinite (i < 0) m))"

fun to_float :: "py_number \<Rightarrow> py_error + py_float" where
  "to_float (PyInt i) = float_of_int i"
| "to_float (PyFloat x) = Inr x"

text \<open>The product and the quotient of two doubles.\<close>

fun float_mul :: "py_float \<Rightarrow> py_float \<Rightarrow> py_float" where
  "float_mul FloatNaN y = FloatNaN"
| "float_mul x FloatNaN = FloatNaN"
| "float_mul (FloatInf s) (FloatInf t) = FloatInf (s \<noteq> t)"
| "float_mul (FloatInf s) (FloatFinite t m) = (if m = 0 then FloatNaN else FloatInf (s \<noteq> t))"
| "float_mul (FloatFinite s m) (FloatInf t) = (if m = 0 then FloatNaN else FloatInf (s \<noteq> t))"
| "float_mul (FloatFinite s m) (FloatFinite t m') =
     (case round_magnitude (m * m') of
        None \<Rightarrow> FloatInf (s \<noteq> t)
      | Some r \<Rightarrow> FloatFinite (s \<noteq> t) r)"

fun ieee_div :: "py_float \<Rightarrow> py_float \<Rightarrow> py_float" where
  "ieee_div FloatNaN y = FloatNaN"
| "ieee_div x FloatNaN = FloatNaN"
| "ieee_div (FloatInf s) (FloatInf t) = FloatNaN"
| "ieee_div (FloatInf s) (FloatFinite t m) = FloatInf (s \<noteq> t)"
| "ieee_div (FloatFinite s m) (FloatInf t) = FloatFinite (s \<noteq> t) 0"
| "ieee_div (FloatFinite s m) (FloatFinite t m') =
     (if m' = 0 then (if m = 0 then FloatNaN else FloatInf (s \<noteq> t))
      else case round_magnitude (m / m') of
             None \<Rightarrow> FloatInf (s \<noteq> t)
           | Some r \<Rightarrow> FloatFinite (s \<noteq> t) r)"

fun float_is_zero :: "py_float \<Rightarrow> bool" where
  "float_is_zero (FloatFinite s m) = (m = 0)"
| "float_is_zero (FloatInf s) = False"
| "float_is_zero FloatNaN = False"

text \<open>\<^verbatim>\<open>float.__truediv__\<close>: a zero divisor raises, of either sign.\<close>

definition float_div :: "py_float \<Rightarrow> py_float \<Rightarrow> py_error + py_float" where
  "float_div x y = (if float_is_zero y then Inl ZeroDivisionError else Inr (ieee_div x y))"

text \<open>
  \<^verbatim>\<open>a / b\<close>. Two integers are divided exactly and the quotient is rounded once; it is
  \<^verbatim>\<open>OverflowError\<close> when the quotient is beyond the largest double. Otherwise the left
  operand is converted to a float, then the right one, and the floats are divided.
\<close>

fun py_truediv :: "py_number \<Rightarrow> py_number \<Rightarrow> py_error + py_float" where
  "py_truediv (PyInt a) (PyInt b) =
     (if b = 0 then Inl ZeroDivisionError
      else case round_magnitude (\<bar>of_int a\<bar> / \<bar>of_int b\<bar>) of
             None \<Rightarrow> Inl OverflowError
           | Some m \<Rightarrow> Inr (FloatFinite ((a < 0) \<noteq> (b < 0)) m))"
| "py_truediv (PyInt a) (PyFloat y) =
     (case float_of_int a of Inl e \<Rightarrow> Inl e | Inr x \<Rightarrow> float_div x y)"
| "py_truediv (PyFloat x) (PyInt b) =
     (case float_of_int b of Inl e \<Rightarrow> Inl e | Inr y \<Rightarrow> float_div x y)"
| "py_truediv (PyFloat x) (PyFloat y) = float_div x y"

text \<open>\<^verbatim>\<open>x >= k\<close> for a float and an integer: the comparison of their values.\<close>

fun float_ge_int :: "py_float \<Rightarrow> int \<Rightarrow> bool" where
  "float_ge_int (FloatFinite s m) k = (of_int k \<le> signed s m)"
| "float_ge_int (FloatInf s) k = (\<not> s)"
| "float_ge_int FloatNaN k = False"

text \<open>
  \<^verbatim>\<open>int(x)\<close> of a float truncates towards zero, and raises for an infinity and for
  not a number.
\<close>

definition py_int :: "real \<Rightarrow> int" where
  "py_int x = (if 0 \<le> x then \<lfloor>x\<rfloor> else \<lceil>x\<rceil>)"

fun int_of_float :: "py_float \<Rightarrow> py_error + int" where
  "int_of_float (FloatFinite s m) = Inr (py_int (signed s m))"
| "int_of_float (FloatInf s) = Inl OverflowError"
| "int_of_float FloatNaN = Inl ValueError"

text \<open>The value of a number, when it has one.\<close>

fun number_value :: "py_number \<Rightarrow> real option" where
  "number_value (PyInt i) = Some (of_int i)"
| "number_value (PyFloat (FloatFinite s m)) = Some (signed s m)"
| "number_value (PyFloat (FloatInf s)) = None"
| "number_value (PyFloat FloatNaN) = None"

fun number_is_zero :: "py_number \<Rightarrow> bool" where
  "number_is_zero (PyInt i) = (i = 0)"
| "number_is_zero (PyFloat x) = float_is_zero x"


subsection \<open>The surroundings and Python built-ins the methods use\<close>

text \<open>
  What a call reads from outside the centre: the clock (\<^verbatim>\<open>time.time()\<close>, the value of
  the double it returns), Python's string hash (\<^verbatim>\<open>hash\<close>, seeded per process), the
  fixed-point format of a float (\<^verbatim>\<open>format(x, '.<n>f')\<close>) and the lengths, in seconds,
  that the platform's sleep accepts.
\<close>

record py_env =
  time_now :: real
  str_hash :: "string \<Rightarrow> int"
  format_fixed :: "nat \<Rightarrow> py_float \<Rightarrow> string"
  sleeps :: "real \<Rightarrow> bool"

text \<open>
  \<^verbatim>\<open>format(x, '.<n>f')\<close> of a number: an integer is converted to a float first.
\<close>

definition format_number :: "py_env \<Rightarrow> nat \<Rightarrow> py_number \<Rightarrow> py_error + string" where
  "format_number env digits x =
     (case to_float x of Inl e \<Rightarrow> Inl e | Inr y \<Rightarrow> Inr (format_fixed env digits y))"

text \<open>
  \<^verbatim>\<open>time.sleep(secs)\<close> returns for a length that is not negative and that the platform
  accepts; it raises \<^verbatim>\<open>ValueError\<close> for a negative length or not a number, and
  \<^verbatim>\<open>OverflowError\<close> or \<^verbatim>\<open>OSError\<close> for one the platform refuses.
\<close>

fun sleep_returns :: "py_env \<Rightarrow> py_number \<Rightarrow> bool" where
  "sleep_returns env (PyInt i) = (0 \<le> i \<and> sleeps env (of_int i))"
| "sleep_returns env (PyFloat (FloatFinite s m)) = ((\<not> s \<or> m = 0) \<and> sleeps env m)"
| "sleep_returns env (PyFloat (FloatInf s)) = False"
| "sleep_returns env (PyFloat FloatNaN) = False"

text \<open>\<^verbatim>\<open>str(n)\<close> of an integer: its decimal digits, with a sign when negative.\<close>

fun str_nat :: "nat \<Rightarrow> string" where
  "str_nat n =
     (if n < 10 then [char_of (48 + n)]
      else str_nat (n div 10) @ [char_of (48 + n mod 10)])"

declare str_nat.simps [simp del]

definition str_int :: "int \<Rightarrow> string" where
  "str_int i = (if i < 0 then CHR ''-'' # str_nat (nat (- i)) else str_nat (nat i))"

text \<open>\<^verbatim>\<open>str.title()\<close> on ASCII text: a letter that follows a letter is lowered, any other
  letter is raised.\<close>

definition is_upper :: "char \<Rightarrow> bool" where
  "is_upper ch = (65 \<le> (of_char ch :: nat) \<and> (of_char ch :: nat) \<le> 90)"

definition is_lower :: "char \<Rightarrow> bool" where
  "is_lower ch = (97 \<le> (of_char ch :: nat) \<and> (of_char ch :: nat) \<le> 122)"

definition to_upper :: "char \<Rightarrow> char" where
  "to_upper ch = (if is_lower ch then char_of ((of_char ch :: nat) - 32) else ch)"

definition to_lower :: "char \<Rightarrow> char" where
  "to_lower ch = (if is_upper ch then char_of ((of_char ch :: nat) + 32) else ch)"

fun title_from :: "bool \<Rightarrow> string \<Rightarrow> string" where
  "title_from previous_is_cased [] = []"
| "title_from previous_is_cased (ch # rest) =
     (if is_upper ch \<or> is_lower ch
      then (if previous_is_cased then to_lower ch else to_upper ch) # title_from True rest
      else ch # title_from False rest)"

definition py_title :: "string \<Rightarrow> string" where
  "py_title s = title_from False s"

subsection \<open>The priority queue\<close>

text \<open>
  \<^verbatim>\<open>queue.PriorityQueue\<close> is the standard library's: it keeps its entries in a list
  that \<^verbatim>\<open>heapq\<close> maintains as a binary heap; \<^verbatim>\<open>put\<close> is \<^verbatim>\<open>heappush\<close> and \<^verbatim>\<open>get\<close> is
  \<^verbatim>\<open>heappop\<close>. The functions below follow CPython's \<^verbatim>\<open>_heapq\<close>, which orders the
  entries with Python's \<^verbatim>\<open><\<close> on the tuples and exchanges two items of the list at each
  step, so that a comparison that raises leaves the list as the steps before it made it.

  Python compares two entries by their keys and, when the keys are equal, by their
  notifications: equal notifications make the entries equal, and unequal ones have no
  order (\<^verbatim>\<open>DesktopNotification\<close> is a dataclass without \<^verbatim>\<open>order=True\<close>), so that the
  comparison raises \<^verbatim>\<open>TypeError\<close>.
\<close>

fun key_lt :: "queue_key \<Rightarrow> queue_key \<Rightarrow> bool" where
  "key_lt (a, s) (b, t) = (a < b \<or> (a = b \<and> s < t))"

fun entry_lt :: "queue_entry \<Rightarrow> queue_entry \<Rightarrow> py_error + bool" where
  "entry_lt (k, n) (k', n') =
     (if k \<noteq> k' then Inr (key_lt k k')
      else if n = n' then Inr False
      else Inl TypeError)"

text \<open>
  \<^verbatim>\<open>siftdown(heap, startpos, pos)\<close>: the item at \<open>pos\<close> moves towards the root while it
  is less than its parent.
\<close>

function siftdown ::
  "queue_entry list \<Rightarrow> nat \<Rightarrow> nat \<Rightarrow> py_error option \<times> queue_entry list" where
  "siftdown heap startpos pos =
     (if startpos < pos then
        (case entry_lt (heap ! pos) (heap ! ((pos - 1) div 2)) of
           Inl e \<Rightarrow> (Some e, heap)
         | Inr is_less \<Rightarrow>
             if is_less
             then siftdown
                    (heap[(pos - 1) div 2 := heap ! pos, pos := heap ! ((pos - 1) div 2)])
                    startpos ((pos - 1) div 2)
             else (None, heap))
      else (None, heap))"
  by pat_completeness auto
termination
  by (relation "measure (\<lambda>(heap, startpos, pos). pos)") auto

declare siftdown.simps [simp del]

text \<open>
  The loop of \<^verbatim>\<open>siftup(heap, pos)\<close>: the smaller child moves up until the item that
  started at \<open>pos\<close> is at a leaf. With one child there is nothing to compare.
\<close>

function siftup_loop ::
  "queue_entry list \<Rightarrow> nat \<Rightarrow> py_error option \<times> queue_entry list \<times> nat" where
  "siftup_loop heap pos =
     (if pos < length heap div 2 then
        (case (if 2 * pos + 2 < length heap
               then entry_lt (heap ! (2 * pos + 1)) (heap ! (2 * pos + 2))
               else Inr True) of
           Inl e \<Rightarrow> (Some e, heap, pos)
         | Inr is_less \<Rightarrow>
             siftup_loop
               (heap[(if is_less then 2 * pos + 1 else 2 * pos + 2) := heap ! pos,
                     pos := heap ! (if is_less then 2 * pos + 1 else 2 * pos + 2)])
               (if is_less then 2 * pos + 1 else 2 * pos + 2))
      else (None, heap, pos))"
  by pat_completeness auto
termination
  by (relation "measure (\<lambda>(heap, pos). length heap - pos)") auto

declare siftup_loop.simps [simp del]

text \<open>\<^verbatim>\<open>siftup(heap, pos)\<close>: the loop, then \<^verbatim>\<open>siftdown\<close> from the leaf reached.\<close>

definition siftup :: "queue_entry list \<Rightarrow> nat \<Rightarrow> py_error option \<times> queue_entry list" where
  "siftup heap pos =
     (case siftup_loop heap pos of
        (Some e, heap', leaf) \<Rightarrow> (Some e, heap')
      | (None, heap', leaf) \<Rightarrow> siftdown heap' pos leaf)"

text \<open>\<^verbatim>\<open>heappush(heap, item)\<close>: append, then \<^verbatim>\<open>siftdown(heap, 0, len(heap) - 1)\<close>.\<close>

definition heappush :: "queue_entry list \<Rightarrow> queue_entry \<Rightarrow> py_error option \<times> queue_entry list" where
  "heappush heap item = siftdown (heap @ [item]) 0 (length heap)"

text \<open>
  \<^verbatim>\<open>heappop(heap)\<close> on a heap that is not empty: the last item leaves the list; when the
  list is then empty it is the result; otherwise it takes the place of the first item,
  which is the result when \<^verbatim>\<open>siftup(heap, 0)\<close> returns. When \<^verbatim>\<open>siftup\<close> raises, the
  exception is all the caller gets: the first item is in the list no more.
\<close>

definition heappop :: "queue_entry list \<Rightarrow> (py_error + queue_entry) \<times> queue_entry list" where
  "heappop heap =
     (let lastelt = last heap; heap1 = butlast heap
      in if heap1 = [] then (Inr lastelt, heap1)
         else (let returnitem = heap1 ! 0
               in case siftup (heap1[0 := lastelt]) 0 of
                    (None, heap2) \<Rightarrow> (Inr returnitem, heap2)
                  | (Some e, heap2) \<Rightarrow> (Inl e, heap2)))"

text \<open>\<^verbatim>\<open>PriorityQueue.put(item)\<close>; the queue is unbounded, so the call never waits.\<close>

definition pq_put :: "queue_entry \<Rightarrow> queue_entry list \<Rightarrow> py_error option \<times> queue_entry list" where
  "pq_put e q = heappush q e"

text \<open>
  \<^verbatim>\<open>PriorityQueue.get(timeout=1.0)\<close>: \<^verbatim>\<open>queue.Empty\<close> on an empty queue, and otherwise
  what \<^verbatim>\<open>heappop\<close> gives, with the list it leaves.
\<close>

datatype get_result =
  QueueEmpty
  | Got queue_entry "queue_entry list"
  | GetRaised py_error "queue_entry list"

definition pq_get :: "queue_entry list \<Rightarrow> get_result" where
  "pq_get q =
     (if q = [] then QueueEmpty
      else case heappop q of
             (Inr item, rest) \<Rightarrow> Got item rest
           | (Inl e, rest) \<Rightarrow> GetRaised e rest)"

subsection \<open>Dismissal\<close>

text \<open>\<^verbatim>\<open>_dismiss_notification(notification_id, reason)\<close>.\<close>

text \<open>
  The call of the dismiss callback inside \<^verbatim>\<open>try ... except Exception\<close>: an instance of
  \<^verbatim>\<open>Exception\<close> is logged, any other exception leaves the \<^verbatim>\<open>try\<close> statement.
\<close>

definition run_dismiss_callback ::
  "DesktopNotification \<Rightarrow> string \<Rightarrow> center \<Rightarrow> py_error option \<times> center" where
  "run_dismiss_callback n reason c =
     (case dismiss_callback n of
        None \<Rightarrow> (None, c)
      | Some cb \<Rightarrow>
          (let c' = c\<lparr>callback_calls := callback_calls c @ [(nid n, reason)]\<rparr>
           in case cb reason of
                Returns \<Rightarrow> (None, c')
              | Raises e \<Rightarrow>
                  (None, c'\<lparr>error_log := error_log c' @ [ErrorInDismissCallback e]\<rparr>)
              | RaisesBase e \<Rightarrow> (Some (BaseException e), c')))"

definition count_dismissed :: "center \<Rightarrow> center" where
  "count_dismissed c =
     c\<lparr>stats := (stats c)\<lparr>dismissed_count := dismissed_count (stats c) + 1\<rparr>\<rparr>"

text \<open>
  The notification is taken out of the active set before its callback is called, and the
  counter is incremented after the call: an exception that leaves the call leaves the
  method with the notification gone and the counter as it was.
\<close>

definition priv_dismiss_notification ::
  "center \<Rightarrow> string \<Rightarrow> string \<Rightarrow> (py_error + bool) \<times> center" where
  "priv_dismiss_notification c notification_id reason =
     (case map_of (active_notifications c) notification_id of
        None \<Rightarrow> (Inr False, c)
      | Some n \<Rightarrow>
          (case run_dismiss_callback n reason
                  (c\<lparr>active_notifications :=
                       AList.delete notification_id (active_notifications c)\<rparr>) of
             (Some e, c') \<Rightarrow> (Inl e, c')
           | (None, c') \<Rightarrow> (Inr True, count_dismissed c')))"

text \<open>
  The exception outside \<^verbatim>\<open>Exception\<close> that the dismiss callback of a notification
  raises when it is called with a reason, if it raises one.
\<close>

definition callback_escapes :: "DesktopNotification \<Rightarrow> string \<Rightarrow> string option" where
  "callback_escapes n reason =
     (case dismiss_callback n of
        None \<Rightarrow> None
      | Some cb \<Rightarrow>
          (case cb reason of Returns \<Rightarrow> None | Raises e \<Rightarrow> None | RaisesBase e \<Rightarrow> Some e))"

text \<open>\<^verbatim>\<open>dismiss_notification(notification_id, reason="user_dismissed")\<close>.\<close>

definition dismiss_notification ::
  "center \<Rightarrow> string \<Rightarrow> string \<Rightarrow> (py_error + bool) \<times> center" where
  "dismiss_notification c notification_id reason =
     priv_dismiss_notification c notification_id reason"

subsection \<open>Showing a notification\<close>

text \<open>
  The identifier \<^verbatim>\<open>show_notification\<close> gives a notification that has none:
  \<^verbatim>\<open>f"notif_{int(time.time() * 1000)}_{hash(notification.title)}"\<close>, with the product
  rounded as a double; \<^verbatim>\<open>int\<close> raises when the product is beyond the doubles.
\<close>

definition generated_id :: "py_env \<Rightarrow> DesktopNotification \<Rightarrow> py_error + string" where
  "generated_id env n =
     (case int_of_float (float_mul (float_of_real (time_now env)) (FloatFinite False 1000)) of
        Inl e \<Rightarrow> Inl e
      | Inr milliseconds \<Rightarrow>
          Inr (''notif_'' @ str_int milliseconds @ ''_'' @ str_int (str_hash env (title n))))"

definition ensure_id :: "py_env \<Rightarrow> DesktopNotification \<Rightarrow> py_error + DesktopNotification" where
  "ensure_id env n =
     (if nid n = [] then
        (case generated_id env n of Inl e \<Rightarrow> Inl e | Inr i \<Rightarrow> Inr (n\<lparr>nid := i\<rparr>))
      else Inr n)"

text \<open>\<^verbatim>\<open>notification.replace_id and notification.replace_id in self.active_notifications\<close>.\<close>

definition replace_target :: "center \<Rightarrow> DesktopNotification \<Rightarrow> string option" where
  "replace_target c n =
     (case replace_id n of
        None \<Rightarrow> None
      | Some r \<Rightarrow> if r \<noteq> [] \<and> map_of (active_notifications c) r \<noteq> None then Some r else None)"

definition queue_key_of :: "DesktopNotification \<Rightarrow> queue_key" where
  "queue_key_of n = (100 - priority_value (priority n), timestamp n)"

definition blocked_by_dnd :: "center \<Rightarrow> DesktopNotification \<Rightarrow> bool" where
  "blocked_by_dnd c n =
     (do_not_disturb c \<and> priority_value (priority n) < priority_value CRITICAL)"

definition dismiss_replaced :: "center \<Rightarrow> DesktopNotification \<Rightarrow> py_error option \<times> center" where
  "dismiss_replaced c n =
     (case replace_target c n of
        None \<Rightarrow> (None, c)
      | Some r \<Rightarrow>
          (case priv_dismiss_notification c r ''replaced'' of
             (Inl e, c1) \<Rightarrow> (Some e, c1)
           | (Inr dismissed, c1) \<Rightarrow> (None, c1)))"

definition enqueue :: "center \<Rightarrow> DesktopNotification \<Rightarrow> (py_error + string) \<times> center" where
  "enqueue c n =
     (case pq_put (queue_key_of n, n) (notification_queue c) of
        (None, q) \<Rightarrow>
          (Inr (nid n),
           c\<lparr>notification_queue := q, unfinished_tasks := unfinished_tasks c + 1\<rparr>)
      | (Some e, q) \<Rightarrow> (Inl e, c\<lparr>notification_queue := q\<rparr>))"

text \<open>\<^verbatim>\<open>show_notification(notification)\<close>.\<close>

definition show_notification ::
  "py_env \<Rightarrow> center \<Rightarrow> DesktopNotification \<Rightarrow> (py_error + string) \<times> center" where
  "show_notification env c notification =
     (case ensure_id env notification of
        Inl e \<Rightarrow> (Inl e, c)
      | Inr n \<Rightarrow>
          if blocked_by_dnd c n then (Inr (nid n), c)
          else (case dismiss_replaced c n of
                  (Some e, c1) \<Rightarrow> (Inl e, c1)
                | (None, c1) \<Rightarrow> enqueue c1 n))"

subsection \<open>The delivery worker\<close>

text \<open>\<^verbatim>\<open>_display_notification(notification)\<close>; nothing in its \<^verbatim>\<open>try\<close> block raises.\<close>

definition tray_projection :: "DesktopNotification \<Rightarrow> TrayNotification" where
  "tray_projection n =
     \<lparr>tray_title = title n, tray_body = message n, tray_timeout = duration n,
      tray_click_handler = click_callback n\<rparr>"

definition append_history :: "center \<Rightarrow> DesktopNotification \<Rightarrow> DesktopNotification list" where
  "append_history c n =
     (let h = notification_history c @ [n]
      in if int (length h) > history_limit (config c) then tl h else h)"

definition display_notification :: "center \<Rightarrow> DesktopNotification \<Rightarrow> center" where
  "display_notification c n =
     (let c1 = c\<lparr>active_notifications := AList.update (nid n) n (active_notifications c)\<rparr>;
          c2 = c1\<lparr>notification_history := append_history c1 n\<rparr>;
          c3 = c2\<lparr>tray_calls := tray_calls c2 @ [TrayShowNotification (tray_projection n)]\<rparr>;
          c4 = c3\<lparr>stats := (stats c3)\<lparr>total_sent := total_sent (stats c3) + 1\<rparr>\<rparr>
      in if duration n > 0
         then c4\<lparr>dismiss_timers := dismiss_timers c4 @ [(nid n, duration n)]\<rparr>
         else c4)"

text \<open>
  One iteration of the loop of \<^verbatim>\<open>_process_notification_queue\<close>. The loop runs for the
  centre's lifetime; an iteration that finds \<^verbatim>\<open>is_active\<close> false leaves the loop, and
  the state stays as it is. An exception of \<^verbatim>\<open>get\<close>, of the \<^verbatim>\<open>put\<close> that returns a
  notification to the queue or of \<^verbatim>\<open>task_done\<close> is caught by the loop and logged.
\<close>

definition requeue :: "center \<Rightarrow> queue_entry \<Rightarrow> center" where
  "requeue c e =
     (case pq_put e (notification_queue c) of
        (None, q) \<Rightarrow> c\<lparr>notification_queue := q, unfinished_tasks := unfinished_tasks c + 1\<rparr>
      | (Some err, q) \<Rightarrow>
          c\<lparr>notification_queue := q, error_log := error_log c @ [ErrorProcessingQueue err]\<rparr>)"

text \<open>\<^verbatim>\<open>task_done()\<close> raises \<^verbatim>\<open>ValueError\<close> when it is called once too often.\<close>

definition task_done :: "center \<Rightarrow> center" where
  "task_done c =
     (if unfinished_tasks c - 1 < 0
      then c\<lparr>error_log := error_log c @ [ErrorProcessingQueue ValueError]\<rparr>
      else c\<lparr>unfinished_tasks := unfinished_tasks c - 1\<rparr>)"

definition at_capacity :: "center \<Rightarrow> bool" where
  "at_capacity c = (int (length (active_notifications c)) \<ge> max_simultaneous (config c))"

definition process_notification_queue :: "center \<Rightarrow> center" where
  "process_notification_queue c =
     (if \<not> is_active c then c
      else case pq_get (notification_queue c) of
             QueueEmpty \<Rightarrow> c
           | GetRaised e rest \<Rightarrow>
               c\<lparr>notification_queue := rest,
                 error_log := error_log c @ [ErrorProcessingQueue e]\<rparr>
           | Got (priority_tuple, notification) rest \<Rightarrow>
               (let c1 = c\<lparr>notification_queue := rest\<rparr>
                in if at_capacity c1 then requeue c1 (priority_tuple, notification)
                   else task_done (display_notification c1 notification)))"

subsection \<open>The helpers that build a notification\<close>

text \<open>
  \<^verbatim>\<open>DesktopNotification(id=..., title=..., message=...)\<close> with every other field at the
  default of the dataclass; \<^verbatim>\<open>timestamp\<close> defaults to the clock.
\<close>

definition new_notification :: "py_env \<Rightarrow> string \<Rightarrow> string \<Rightarrow> string \<Rightarrow> DesktopNotification" where
  "new_notification env i t m =
     \<lparr>nid = i, title = t, message = m, ntype = INFO, priority = NORMAL,
      timestamp = time_now env, duration = 5000, sound = True, badge_count = None,
      icon = None, image = None, actions = [], click_callback = None,
      dismiss_callback = None, progress_value = None, progress_text = None,
      group_id = None, replace_id = None, source = ''system'', tags = [],
      data = no_details\<rparr>"

text \<open>\<^verbatim>\<open>NotificationAction(id, label, callback=self.<method>)\<close>.\<close>

definition new_action :: "string \<Rightarrow> string \<Rightarrow> string \<Rightarrow> NotificationAction" where
  "new_action i l method =
     \<lparr>action_id = i, action_label = l, action_type = ''button'',
      action_callback = Some method, action_style = ''default''\<rparr>"

text \<open>
  The notification \<^verbatim>\<open>show_claude_notification(operation, status, details)\<close> creates:
  the branch on \<^verbatim>\<open>status\<close>, the constructor call and the actions added after it.
\<close>

definition claude_branch ::
  "py_env \<Rightarrow> string \<Rightarrow> string \<Rightarrow> details \<Rightarrow> string \<times> string \<times> NotificationType \<times> string" where
  "claude_branch env operation status d =
     (if status = ''started'' then
        (''Claude '' @ py_title operation, ''Starting '' @ operation @ ''...'',
         CLAUDE_ACTIVITY, ''claude_working'')
      else if status = ''completed'' then
        (''Claude '' @ py_title operation @ '' Complete'',
         ''Analysis complete. Tokens: ''
           @ str_int (case tokens_used d of None \<Rightarrow> 0 | Some t \<Rightarrow> t)
           @ '', Cost: $''
           @ format_fixed env 3
               (float_of_real (case cost_estimate d of None \<Rightarrow> 0 | Some x \<Rightarrow> x)),
         SUCCESS, ''claude_success'')
      else if status = ''failed'' then
        (''Claude '' @ py_title operation @ '' Failed'',
         ''Operation failed: ''
           @ (case error_text d of None \<Rightarrow> ''Unknown error'' | Some e \<Rightarrow> e),
         ERROR, ''claude_error'')
      else
        (''Claude '' @ py_title operation,
         (case message_text d of
            None \<Rightarrow> ''Claude '' @ operation @ '' '' @ status
          | Some m \<Rightarrow> m),
         INFO, ''claude_info''))"

definition claude_actions :: "string \<Rightarrow> string \<Rightarrow> NotificationAction list \<Rightarrow> NotificationAction list" where
  "claude_actions operation status before =
     (if status = ''completed'' \<and> operation = ''analyze_code'' then
        [new_action ''view_results'' ''View Results'' ''_view_claude_results'',
         new_action ''run_tests'' ''Generate Tests'' ''_generate_tests_action'']
      else if status = ''failed'' then
        [new_action ''retry'' ''Retry'' ''_retry_claude_operation'',
         new_action ''view_error'' ''View Error'' ''_view_error_details'']
      else before)"

definition claude_notification ::
  "py_env \<Rightarrow> string \<Rightarrow> string \<Rightarrow> details option \<Rightarrow> DesktopNotification" where
  "claude_notification env operation status details_arg =
     (let d = (case details_arg of None \<Rightarrow> no_details | Some x \<Rightarrow> x);
          (t, m, notif_type, icon_name) = claude_branch env operation status d;
          n = (new_notification env
                 (''claude_'' @ operation @ ''_'' @ str_int (py_int (time_now env))) t m)
                \<lparr>ntype := notif_type, priority := NORMAL, icon := Some icon_name,
                 source := ''claude'', tags := [''claude'', operation], data := d,
                 group_id := Some ''claude_operations''\<rparr>
      in n\<lparr>actions := claude_actions operation status (actions n)\<rparr>)"

text \<open>\<^verbatim>\<open>show_claude_notification(operation, status, details=None)\<close>.\<close>

definition show_claude_notification ::
  "py_env \<Rightarrow> center \<Rightarrow> string \<Rightarrow> string \<Rightarrow> details option \<Rightarrow> (py_error + string) \<times> center" where
  "show_claude_notification env c operation status details_arg =
     (let notification = claude_notification env operation status details_arg;
          c1 = c\<lparr>stats := (stats c)\<lparr>claude_notifications := claude_notifications (stats c) + 1\<rparr>\<rparr>
      in show_notification env c1 notification)"

text \<open>\<^verbatim>\<open>show_progress_notification(operation_id, title, progress, status_text="")\<close>.\<close>

text \<open>
  \<^verbatim>\<open>int(progress * 100)\<close>: the product of two integers is exact, that of a float and
  100 is rounded, and \<^verbatim>\<open>int\<close> raises for an infinity or not a number.
\<close>

definition progress_percent :: "py_number \<Rightarrow> py_error + int" where
  "progress_percent progress =
     (case progress of
        PyInt i \<Rightarrow> Inr (i * 100)
      | PyFloat x \<Rightarrow> int_of_float (float_mul x (FloatFinite False 100)))"

definition progress_notification ::
  "py_env \<Rightarrow> string \<Rightarrow> string \<Rightarrow> py_number \<Rightarrow> string \<Rightarrow> py_error + DesktopNotification" where
  "progress_notification env operation_id t progress status_text =
     (case progress_percent progress of
        Inl e \<Rightarrow> Inl e
      | Inr percent \<Rightarrow>
          Inr ((new_notification env (''progress_'' @ operation_id) t status_text)
                 \<lparr>ntype := PROGRESS, priority := NORMAL, duration := 0,
                  progress_value := number_value progress,
                  progress_text := Some (str_int percent @ ''%''),
                  source := ''system'', replace_id := Some (''progress_'' @ operation_id)\<rparr>))"

definition show_progress_notification ::
  "py_env \<Rightarrow> center \<Rightarrow> string \<Rightarrow> string \<Rightarrow> py_number \<Rightarrow> string \<Rightarrow> (py_error + string) \<times> center" where
  "show_progress_notification env c operation_id t progress status_text =
     (case progress_notification env operation_id t progress status_text of
        Inl e \<Rightarrow> (Inl e, c)
      | Inr notification \<Rightarrow> show_notification env c notification)"

text \<open>
  \<^verbatim>\<open>show_system_status(component, status, details=None)\<close>: the two dictionaries with
  the defaults of their \<^verbatim>\<open>get\<close>, the notification, and the update of the tray.
\<close>

definition status_icons :: "(string \<times> string) list" where
  "status_icons =
     [(''connected'', ''status_connected''), (''disconnected'', ''status_disconnected''),
      (''error'', ''status_error''), (''warning'', ''status_warning''),
      (''maintenance'', ''status_maintenance'')]"

definition status_types :: "(string \<times> NotificationType) list" where
  "status_types =
     [(''connected'', SUCCESS), (''disconnected'', WARNING), (''error'', ERROR),
      (''warning'', WARNING), (''maintenance'', INFO)]"

definition dict_get :: "('k \<times> 'v) list \<Rightarrow> 'k \<Rightarrow> 'v \<Rightarrow> 'v" where
  "dict_get d k dflt = (case map_of d k of None \<Rightarrow> dflt | Some v \<Rightarrow> v)"

definition system_status_notification ::
  "py_env \<Rightarrow> string \<Rightarrow> string \<Rightarrow> string option \<Rightarrow> DesktopNotification" where
  "system_status_notification env component status details_arg =
     (new_notification env
        (''system_'' @ component @ ''_'' @ status)
        (py_title component @ '' '' @ py_title status)
        (case details_arg of
           None \<Rightarrow> component @ '' is '' @ status
         | Some s \<Rightarrow> if s = [] then component @ '' is '' @ status else s))
       \<lparr>ntype := dict_get status_types status INFO,
        priority := (if status = ''error'' then HIGH else NORMAL),
        icon := Some (dict_get status_icons status ''status_info''),
        source := ''system'', tags := [''system'', component, status],
        group_id := Some (''system_'' @ component)\<rparr>"

definition tray_status_of :: "(string \<times> TrayIconStatus) list" where
  "tray_status_of =
     [(''connected'', TRAY_ACTIVE), (''disconnected'', TRAY_OFFLINE), (''error'', TRAY_ERROR)]"

definition update_tray_status :: "center \<Rightarrow> string \<Rightarrow> string \<Rightarrow> center" where
  "update_tray_status c component status =
     (if component = ''claude'' \<and> status \<in> set [''connected'', ''disconnected'', ''error'']
      then (case map_of tray_status_of status of
              Some tray_status \<Rightarrow>
                c\<lparr>tray_calls := tray_calls c @ [TrayUpdateStatus tray_status (''Claude: '' @ status)]\<rparr>
            | None \<Rightarrow> c)
      else c)"

definition show_system_status ::
  "py_env \<Rightarrow> center \<Rightarrow> string \<Rightarrow> string \<Rightarrow> string option \<Rightarrow> (py_error + string) \<times> center" where
  "show_system_status env c component status details_arg =
     (let notification = system_status_notification env component status details_arg;
          c1 = update_tray_status c component status;
          c2 = c1\<lparr>stats := (stats c1)\<lparr>system_notifications := system_notifications (stats c1) + 1\<rparr>\<rparr>
      in show_notification env c2 notification)"

text \<open>
  \<^verbatim>\<open>show_cost_alert(current_cost, threshold, period="daily")\<close>. The first statement is
  \<^verbatim>\<open>percentage = (current_cost / threshold) * 100\<close>: the division raises
  \<^verbatim>\<open>ZeroDivisionError\<close> for a zero divisor and \<^verbatim>\<open>OverflowError\<close> for an integer beyond
  the doubles, and both the quotient and the product are rounded. The message formats the
  two arguments and the percentage.
\<close>

definition cost_percentage :: "py_number \<Rightarrow> py_number \<Rightarrow> py_error + py_float" where
  "cost_percentage current_cost threshold =
     (case py_truediv current_cost threshold of
        Inl e \<Rightarrow> Inl e
      | Inr ratio \<Rightarrow> Inr (float_mul ratio (FloatFinite False 100)))"

definition cost_alert_message ::
  "py_env \<Rightarrow> py_float \<Rightarrow> py_number \<Rightarrow> py_number \<Rightarrow> string \<Rightarrow> py_error + string" where
  "cost_alert_message env percentage current_cost threshold period =
     (case format_number env 2 current_cost of
        Inl e \<Rightarrow> Inl e
      | Inr cost_text \<Rightarrow>
          (case format_number env 2 threshold of
             Inl e \<Rightarrow> Inl e
           | Inr threshold_text \<Rightarrow>
               Inr (py_title period @ '' usage: $'' @ cost_text @ '' (''
                      @ format_fixed env 1 percentage @ ''% of $'' @ threshold_text
                      @ '' limit)'')))"

definition cost_alert_notification ::
  "py_env \<Rightarrow> py_float \<Rightarrow> string \<Rightarrow> string \<Rightarrow> DesktopNotification" where
  "cost_alert_notification env percentage body period =
     (new_notification env (''cost_alert_'' @ period) ''Cost Alert'' body)
       \<lparr>ntype := (if float_ge_int percentage 80 then WARNING else INFO),
        priority := (if float_ge_int percentage 100 then HIGH else NORMAL),
        icon := Some ''cost_warning'',
        actions :=
          [new_action ''view_usage'' ''View Usage Details'' ''_view_usage_details'',
           new_action ''adjust_limits'' ''Adjust Limits'' ''_adjust_cost_limits''],
        source := ''cost_monitor'', tags := [''cost'', ''alert'', period],
        group_id := Some ''cost_monitoring''\<rparr>"

definition show_cost_alert ::
  "py_env \<Rightarrow> center \<Rightarrow> py_number \<Rightarrow> py_number \<Rightarrow> string \<Rightarrow> (py_error + string) \<times> center" where
  "show_cost_alert env c current_cost threshold period =
     (case cost_percentage current_cost threshold of
        Inl e \<Rightarrow> (Inl e, c)
      | Inr percentage \<Rightarrow>
          (case cost_alert_message env percentage current_cost threshold period of
             Inl e \<Rightarrow> (Inl e, c)
           | Inr body \<Rightarrow>
               show_notification env c
                 (cost_alert_notification env percentage body period)))"

subsection \<open>Group dismissal, do-not-disturb, statistics, clearing, stopping\<close>

text \<open>
  The loop of \<^verbatim>\<open>dismiss_group\<close> and of \<^verbatim>\<open>clear_all_notifications\<close> over a list of
  identifiers, with the number of calls that returned true; an exception that leaves
  \<^verbatim>\<open>_dismiss_notification\<close> ends the loop.
\<close>

fun dismiss_each :: "string \<Rightarrow> string list \<Rightarrow> int \<Rightarrow> center \<Rightarrow> (py_error + int) \<times> center" where
  "dismiss_each reason [] dismissed c = (Inr dismissed, c)"
| "dismiss_each reason (notification_id # rest) dismissed c =
     (case priv_dismiss_notification c notification_id reason of
        (Inl e, c') \<Rightarrow> (Inl e, c')
      | (Inr was_active, c') \<Rightarrow>
          dismiss_each reason rest (if was_active then dismissed + 1 else dismissed) c')"

text \<open>\<^verbatim>\<open>dismiss_group(group_id)\<close>.\<close>

definition dismiss_group :: "center \<Rightarrow> string \<Rightarrow> (py_error + int) \<times> center" where
  "dismiss_group c g =
     (let to_dismiss = map fst (filter (\<lambda>(k, notif). group_id notif = Some g) (active_notifications c))
      in dismiss_each ''group_dismissed'' to_dismiss 0 c)"

text \<open>
  \<^verbatim>\<open>set_do_not_disturb(enabled, duration_minutes=None)\<close>; with a duration it starts a
  thread that sleeps \<^verbatim>\<open>duration_minutes * 60\<close> seconds and then clears the flag. The
  thread ends in \<open>dnd_timer_wakes\<close>: when its sleep raises it ends without clearing the
  flag.
\<close>

definition set_do_not_disturb :: "center \<Rightarrow> bool \<Rightarrow> int option \<Rightarrow> center" where
  "set_do_not_disturb c enabled duration_minutes =
     (let c1 = c\<lparr>do_not_disturb := enabled\<rparr>
      in if enabled then
           (case duration_minutes of
              None \<Rightarrow> c1
            | Some m \<Rightarrow> if m \<noteq> 0 then c1\<lparr>dnd_timers := dnd_timers c1 @ [m]\<rparr> else c1)
         else c1)"

definition dnd_timer_wakes :: "py_env \<Rightarrow> center \<Rightarrow> int \<Rightarrow> center" where
  "dnd_timer_wakes env c m =
     (if m \<in> set (dnd_timers c) then
        (let c0 = c\<lparr>dnd_timers := remove1 m (dnd_timers c)\<rparr>
         in if sleep_returns env (PyInt (m * 60)) then c0\<lparr>do_not_disturb := False\<rparr> else c0)
      else c)"

text \<open>
  The thread \<^verbatim>\<open>_display_notification\<close> starts for a notification with a positive
  duration: it sleeps \<^verbatim>\<open>duration / 1000.0\<close> seconds and then calls
  \<^verbatim>\<open>_dismiss_notification(id, "auto_dismissed")\<close>. When the division or the sleep
  raises, the thread ends without the call; an exception of the call ends the thread as
  well.
\<close>

definition auto_dismiss_wakes :: "py_env \<Rightarrow> center \<Rightarrow> string \<Rightarrow> int \<Rightarrow> center" where
  "auto_dismiss_wakes env c notification_id d =
     (if (notification_id, d) \<in> set (dismiss_timers c) then
        (let c0 = c\<lparr>dismiss_timers := remove1 (notification_id, d) (dismiss_timers c)\<rparr>
         in case py_truediv (PyInt d) (PyFloat (FloatFinite False 1000)) of
              Inl e \<Rightarrow> c0
            | Inr seconds \<Rightarrow>
                if sleep_returns env (PyFloat seconds)
                then snd (priv_dismiss_notification c0 notification_id ''auto_dismissed'')
                else c0)
      else c)"

text \<open>\<^verbatim>\<open>get_active_notifications()\<close> and \<^verbatim>\<open>get_notification_stats()\<close> read the state.\<close>

definition get_active_notifications :: "center \<Rightarrow> DesktopNotification list" where
  "get_active_notifications c = map snd (active_notifications c)"

record notification_stats =
  counters :: center_stats
  active_count :: int
  queue_size :: int
  history_count :: int
  dnd_flag :: bool

definition get_notification_stats :: "center \<Rightarrow> notification_stats" where
  "get_notification_stats c =
     \<lparr>counters = stats c,
      active_count = int (length (active_notifications c)),
      queue_size = int (length (notification_queue c)),
      history_count = int (length (notification_history c)),
      dnd_flag = do_not_disturb c\<rparr>"

text \<open>\<^verbatim>\<open>clear_all_notifications()\<close>.\<close>

definition clear_all_notifications :: "center \<Rightarrow> (py_error + int) \<times> center" where
  "clear_all_notifications c =
     (let count = int (length (active_notifications c))
      in case dismiss_each ''cleared_all'' (map fst (active_notifications c)) 0 c of
           (Inl e, c') \<Rightarrow> (Inl e, c')
         | (Inr dismissed, c') \<Rightarrow> (Inr count, c'))"

text \<open>\<^verbatim>\<open>stop()\<close>.\<close>

definition stop :: "center \<Rightarrow> center" where
  "stop c = c\<lparr>is_active := False\<rparr>"

subsection \<open>Construction and runs\<close>

text \<open>The configuration \<^verbatim>\<open>__init__\<close> writes.\<close>

definition default_config :: center_config where
  "default_config =
     \<lparr>max_simultaneous = 3, queue_size_limit = 50, history_limit = 100,
      batch_similar_notifications = True, smart_timing = True,
      do_not_disturb_hours = None, priority_escalation = True\<rparr>"

text \<open>
  The centre as \<^verbatim>\<open>__init__\<close> leaves it, for a configuration: \<open>new_center default_config\<close>
  is the constructor's; another configuration is the constructor's state after an
  assignment to \<^verbatim>\<open>center.config\<close>.
\<close>

definition new_center :: "center_config \<Rightarrow> center" where
  "new_center cfg =
     \<lparr>active_notifications = [], notification_queue = [], unfinished_tasks = 0,
      notification_history = [],
      config = cfg, is_active = True, do_not_disturb = False,
      stats = \<lparr>total_sent = 0, dismissed_count = 0, action_clicks = 0,
               claude_notifications = 0, system_notifications = 0\<rparr>,
      tray_calls = [], callback_calls = [], error_log = [], dismiss_timers = [],
      dnd_timers = []\<rparr>"

text \<open>
  What can happen to a centre: a call of a public method, an iteration of the worker's
  loop, or the end of a timer thread. The state after a call is the state the call leaves,
  whether it returns or raises.
\<close>

datatype center_event =
  ShowNotification DesktopNotification
  | ShowClaudeNotification string string "details option"
  | ShowProgressNotification string string py_number string
  | ShowSystemStatus string string "string option"
  | ShowCostAlert py_number py_number string
  | DismissNotification string string
  | DismissGroup string
  | SetDoNotDisturb bool "int option"
  | ClearAllNotifications
  | Stop
  | WorkerIteration
  | AutoDismissWakes string int
  | DndTimerWakes int

fun event_step :: "py_env \<Rightarrow> center_event \<Rightarrow> center \<Rightarrow> center" where
  "event_step env (ShowNotification n) c = snd (show_notification env c n)"
| "event_step env (ShowClaudeNotification operation status d) c =
     snd (show_claude_notification env c operation status d)"
| "event_step env (ShowProgressNotification operation_id t progress status_text) c =
     snd (show_progress_notification env c operation_id t progress status_text)"
| "event_step env (ShowSystemStatus component status d) c =
     snd (show_system_status env c component status d)"
| "event_step env (ShowCostAlert current_cost threshold period) c =
     snd (show_cost_alert env c current_cost threshold period)"
| "event_step env (DismissNotification notification_id reason) c =
     snd (dismiss_notification c notification_id reason)"
| "event_step env (DismissGroup g) c = snd (dismiss_group c g)"
| "event_step env (SetDoNotDisturb enabled duration_minutes) c =
     set_do_not_disturb c enabled duration_minutes"
| "event_step env ClearAllNotifications c = snd (clear_all_notifications c)"
| "event_step env Stop c = stop c"
| "event_step env WorkerIteration c = process_notification_queue c"
| "event_step env (AutoDismissWakes notification_id d) c =
     auto_dismiss_wakes env c notification_id d"
| "event_step env (DndTimerWakes m) c = dnd_timer_wakes env c m"

text \<open>The state after a sequence of events, each with what it reads of its surroundings.\<close>

fun run :: "center \<Rightarrow> (py_env \<times> center_event) list \<Rightarrow> center" where
  "run c [] = c"
| "run c ((env, ev) # rest) = run (event_step env ev c) rest"

subsection \<open>Example states\<close>

text \<open>Concrete surroundings, notifications and centres on which the theorems are instantiated.\<close>

definition example_format :: "nat \<Rightarrow> py_float \<Rightarrow> string" where
  "example_format digits x =
     (case int_of_float x of Inl e \<Rightarrow> ''?'' | Inr i \<Rightarrow> str_int i)"

definition example_env :: py_env where
  "example_env =
     \<lparr>time_now = 1700000000, str_hash = (\<lambda>s. int (length s)),
      format_fixed = example_format, sleeps = (\<lambda>seconds. True)\<rparr>"

definition example_notification ::
  "string \<Rightarrow> NotificationPriority \<Rightarrow> real \<Rightarrow> DesktopNotification" where
  "example_notification i p t =
     (new_notification example_env i ''Title'' ''Body'')\<lparr>priority := p, timestamp := t\<rparr>"

text \<open>A notification whose dismiss callback raises.\<close>

definition raising_notification :: DesktopNotification where
  "raising_notification =
     (example_notification ''a'' NORMAL 1)
       \<lparr>dismiss_callback := Some (\<lambda>reason. Raises ''boom'')\<rparr>"

text \<open>The centre after that notification was shown and the worker displayed it.\<close>

definition raising_center :: center where
  "raising_center =
     run (new_center default_config)
       [(example_env, ShowNotification raising_notification), (example_env, WorkerIteration)]"

text \<open>
  A notification whose dismiss callback raises \<^verbatim>\<open>KeyboardInterrupt\<close>, the centre after it
  was shown and displayed, and a notification that names it as the one to replace.
\<close>

definition interrupting_notification :: DesktopNotification where
  "interrupting_notification =
     (example_notification ''k'' NORMAL 1)
       \<lparr>dismiss_callback := Some (\<lambda>reason. RaisesBase ''KeyboardInterrupt'')\<rparr>"

definition interrupting_center :: center where
  "interrupting_center =
     run (new_center default_config)
       [(example_env, ShowNotification interrupting_notification),
        (example_env, WorkerIteration)]"

definition replacing_interrupting :: DesktopNotification where
  "replacing_interrupting = (example_notification ''b'' NORMAL 2)\<lparr>replace_id := Some ''k''\<rparr>"

text \<open>The example of the specification: three notifications, one shown at a time.\<close>

definition small_config :: center_config where
  "small_config = default_config\<lparr>max_simultaneous := 1, history_limit := 2\<rparr>"

definition urgent_first :: DesktopNotification where
  "urgent_first = example_notification ''u'' URGENT 1"

definition low_second :: DesktopNotification where
  "low_second = example_notification ''l'' LOW 2"

definition normal_third :: DesktopNotification where
  "normal_third = example_notification ''n'' NORMAL 3"

definition show_events :: "(py_env \<times> center_event) list" where
  "show_events =
     [(example_env, ShowNotification urgent_first),
      (example_env, ShowNotification low_second),
      (example_env, ShowNotification normal_third)]"

definition three_shown :: center where
  "three_shown = run (new_center small_config) show_events"

definition delivery_events :: "(py_env \<times> center_event) list" where
  "delivery_events =
     [(example_env, WorkerIteration),
      (example_env, WorkerIteration),
      (example_env, DismissNotification ''u'' ''user_dismissed''),
      (example_env, WorkerIteration),
      (example_env, DismissNotification ''n'' ''user_dismissed''),
      (example_env, WorkerIteration)]"

definition delivered :: center where
  "delivered = run (new_center small_config) (show_events @ delivery_events)"

text \<open>A centre with an active notification and do-not-disturb set, and notifications that
  name the active one as the one to replace.\<close>

definition quiet_center :: center where
  "quiet_center = set_do_not_disturb raising_center True None"

definition replacing_notification :: DesktopNotification where
  "replacing_notification = (example_notification ''b'' NORMAL 2)\<lparr>replace_id := Some ''a''\<rparr>"

definition critical_replacing :: DesktopNotification where
  "critical_replacing = (example_notification ''b'' CRITICAL 2)\<lparr>replace_id := Some ''a''\<rparr>"

text \<open>A fresh centre with do-not-disturb set.\<close>

definition quiet_new_center :: center where
  "quiet_new_center = set_do_not_disturb (new_center default_config) True None"

text \<open>Four notifications, two of them with the same priority and the same timestamp.\<close>

definition tied_urgent :: DesktopNotification where
  "tied_urgent = example_notification ''a'' URGENT 1"

definition tied_normal_b :: DesktopNotification where
  "tied_normal_b = example_notification ''b'' NORMAL 2"

definition tied_normal_c :: DesktopNotification where
  "tied_normal_c = example_notification ''c'' NORMAL 2"

definition tied_low :: DesktopNotification where
  "tied_low = example_notification ''d'' LOW 3"

definition tied_show_events :: "(py_env \<times> center_event) list" where
  "tied_show_events =
     [(example_env, ShowNotification tied_urgent),
      (example_env, ShowNotification tied_normal_b),
      (example_env, ShowNotification tied_normal_c),
      (example_env, ShowNotification tied_low)]"

definition tied_shown :: center where
  "tied_shown = run (new_center default_config) tied_show_events"

definition four_iterations :: "(py_env \<times> center_event) list" where
  "four_iterations =
     [(example_env, WorkerIteration), (example_env, WorkerIteration),
      (example_env, WorkerIteration), (example_env, WorkerIteration)]"

text \<open>
  Do-not-disturb is set on a fresh centre, and four notifications that it lets pass are
  shown: an urgent one and three critical ones, two of them with the same timestamp.
\<close>

definition quiet_urgent :: DesktopNotification where
  "quiet_urgent = example_notification ''a'' URGENT 1"

definition quiet_critical_b :: DesktopNotification where
  "quiet_critical_b = example_notification ''b'' CRITICAL 2"

definition quiet_critical_c :: DesktopNotification where
  "quiet_critical_c = example_notification ''c'' CRITICAL 2"

definition quiet_critical_d :: DesktopNotification where
  "quiet_critical_d = example_notification ''d'' CRITICAL 3"

definition quiet_show_events :: "(py_env \<times> center_event) list" where
  "quiet_show_events =
     [(example_env, ShowNotification quiet_urgent),
      (example_env, ShowNotification quiet_critical_b),
      (example_env, ShowNotification quiet_critical_c),
      (example_env, ShowNotification quiet_critical_d)]"

definition quiet_shown :: center where
  "quiet_shown = run quiet_new_center quiet_show_events"



definition float_zero :: py_number where
  "float_zero = PyFloat (FloatFinite False 0)"

definition huge_integer :: py_number where
  "huge_integer = PyInt (2 ^ 1024)"

subsection \<open>Well-formed states\<close>

text \<open>
  The keys of the active set are distinct (it is a dictionary) and none is the empty
  string, and no queued notification has an empty identifier.
\<close>

definition ids_ok :: "center \<Rightarrow> bool" where
  "ids_ok c =
     (distinct (map fst (active_notifications c)) \<and>
      [] \<notin> fst ` set (active_notifications c) \<and>
      [] \<notin> (\<lambda>e. nid (snd e)) ` set (notification_queue c))"

subsection \<open>The mapping table of the specification\<close>

text \<open>
  The table of section 6 of the specification, row by row: the family of the helper
  (\<open>operation\<close> for \<^verbatim>\<open>show_claude_notification\<close>, \<open>component\<close> for
  \<^verbatim>\<open>show_system_status\<close>), the status, and the type, priority and icon it lists. The
  specification writes \<open>activity\<close> for \<^verbatim>\<open>NotificationType.CLAUDE_ACTIVITY\<close>.
\<close>

definition spec_mapping_table ::
  "(string \<times> string \<times> NotificationType \<times> NotificationPriority \<times> string) list" where
  "spec_mapping_table =
     [(''operation'', ''started'', CLAUDE_ACTIVITY, NORMAL, ''working''),
      (''operation'', ''completed'', SUCCESS, NORMAL, ''success''),
      (''operation'', ''failed'', ERROR, NORMAL, ''error''),
      (''component'', ''connected'', SUCCESS, NORMAL, ''connected''),
      (''component'', ''disconnected'', WARNING, NORMAL, ''disconnected''),
      (''component'', ''error'', ERROR, HIGH, ''error''),
      (''component'', ''warning'', WARNING, NORMAL, ''warning''),
      (''component'', ''maintenance'', INFO, NORMAL, ''maintenance'')]"

section \<open>Properties\<close>

subsection \<open>The heap keeps its items\<close>

lemma siftdown_keeps:
  "pos < length heap \<Longrightarrow>
     set (snd (siftdown heap startpos pos)) = set heap \<and>
     length (snd (siftdown heap startpos pos)) = length heap"
proof (induction heap startpos pos rule: siftdown.induct)
  case (1 heap startpos pos)
  show ?case
  proof (cases "startpos < pos")
    case False
    then show ?thesis by (simp add: siftdown.simps [of heap startpos pos])
  next
    case True
    let ?parent = "(pos - 1) div 2"
    from True have parent: "?parent < pos" by simp
    show ?thesis
    proof (cases "entry_lt (heap ! pos) (heap ! ?parent)")
      case (Inl e)
      with True show ?thesis by (simp add: siftdown.simps [of heap startpos pos])
    next
      case (Inr b)
      show ?thesis
      proof (cases b)
        case False
        with True Inr show ?thesis by (simp add: siftdown.simps [of heap startpos pos])
      next
        case b: True
        let ?heap' = "heap[?parent := heap ! pos, pos := heap ! ?parent]"
        from parent "1.prems" have "?parent < length ?heap'" by simp
        with "1.IH" [OF True Inr] b
        have "set (snd (siftdown ?heap' startpos ?parent)) = set ?heap' \<and>
            length (snd (siftdown ?heap' startpos ?parent)) = length ?heap'"
          by simp
        moreover from parent "1.prems" have "set ?heap' = set heap"
          by (simp add: set_swap)
        ultimately show ?thesis
          using True Inr b by (simp add: siftdown.simps [of heap startpos pos])
      qed
    qed
  qed
qed

lemma siftup_loop_keeps:
  "pos < length heap \<Longrightarrow>
     set (fst (snd (siftup_loop heap pos))) = set heap \<and>
     length (fst (snd (siftup_loop heap pos))) = length heap \<and>
     snd (snd (siftup_loop heap pos)) < length heap"
proof (induction heap pos rule: siftup_loop.induct)
  case (1 heap pos)
  show ?case
  proof (cases "pos < length heap div 2")
    case False
    with "1.prems" show ?thesis by (simp add: siftup_loop.simps [of heap pos])
  next
    case True
    let ?cmp = "if 2 * pos + 2 < length heap
               then entry_lt (heap ! (2 * pos + 1)) (heap ! (2 * pos + 2))
               else Inr True"
    show ?thesis
    proof (cases ?cmp)
      case (Inl e)
      with True "1.prems" show ?thesis by (simp add: siftup_loop.simps [of heap pos])
    next
      case (Inr b)
      let ?child = "if b then 2 * pos + 1 else 2 * pos + 2"
      let ?heap' = "heap[?child := heap ! pos, pos := heap ! ?child]"
      from True Inr have child: "?child < length heap"
        by (auto split: if_splits)
      then have "?child < length ?heap'" by simp
      with "1.IH" [OF True Inr]
      have "set (fst (snd (siftup_loop ?heap' ?child))) = set ?heap' \<and>
          length (fst (snd (siftup_loop ?heap' ?child))) = length ?heap' \<and>
          snd (snd (siftup_loop ?heap' ?child)) < length ?heap'"
        by simp
      moreover from child "1.prems" have "set ?heap' = set heap"
        by (simp add: set_swap)
      ultimately show ?thesis
        using True Inr by (simp add: siftup_loop.simps [of heap pos])
    qed
  qed
qed

lemma siftup_keeps:
  assumes "pos < length heap"
  shows "set (snd (siftup heap pos)) = set heap"
proof -
  obtain err heap' leaf where r: "siftup_loop heap pos = (err, heap', leaf)"
    by (cases "siftup_loop heap pos")
  with siftup_loop_keeps [OF assms] have k: "set heap' = set heap" "leaf < length heap'"
    by simp_all
  show ?thesis
  proof (cases err)
    case None
    with r k siftdown_keeps [of leaf heap' pos] show ?thesis by (simp add: siftup_def)
  next
    case (Some e)
    with r k show ?thesis by (simp add: siftup_def)
  qed
qed

lemma heappush_keeps: "set (snd (heappush heap item)) = insert item (set heap)"
  using siftdown_keeps [of "length heap" "heap @ [item]" 0] by (simp add: heappush_def)

lemma pq_put_keeps: "set (snd (pq_put e q)) = insert e (set q)"
  by (simp add: pq_put_def heappush_keeps)

lemma heappop_keeps:
  assumes "heap \<noteq> []"
  shows "set (snd (heappop heap)) \<subseteq> set heap \<and>
     (\<forall>item. fst (heappop heap) = Inr item \<longrightarrow> item \<in> set heap)"
proof (cases "butlast heap = []")
  case True
  with assms show ?thesis by (simp add: heappop_def Let_def)
next
  case False
  let ?heap1 = "(butlast heap)[0 := last heap]"
  from False have "0 < length (butlast heap)" by (rule length_greater_0_conv [THEN iffD2])
  then have len: "0 < length ?heap1" by (simp del: length_butlast)
  have sub: "set ?heap1 \<subseteq> set heap"
  proof -
    have "set ?heap1 \<subseteq> insert (last heap) (set (butlast heap))"
      by (rule set_update_subset_insert)
    moreover have "set (butlast heap) \<subseteq> set heap" by (auto dest: in_set_butlastD)
    ultimately show ?thesis using assms by auto
  qed
  have first: "butlast heap ! 0 \<in> set heap"
    using False by (metis in_set_butlastD length_greater_0_conv nth_mem)
  obtain err heap2 where r: "siftup ?heap1 0 = (err, heap2)"
    by (cases "siftup ?heap1 0")
  with siftup_keeps [OF len] have "set heap2 = set ?heap1" by simp
  with sub first r False show ?thesis
    by (cases err) (simp_all add: heappop_def Let_def)
qed

lemma pq_put_empty: "pq_put e [] = (None, [e])"
  by (simp add: pq_put_def heappush_def siftdown.simps)

lemma pq_get_empty: "pq_get [] = QueueEmpty"
  by (simp add: pq_get_def)

lemma pq_get_single: "pq_get [e] = Got e []"
  by (simp add: pq_get_def heappop_def)

lemma pq_get_keeps:
  "(pq_get q = Got item rest \<longrightarrow> item \<in> set q \<and> set rest \<subseteq> set q) \<and>
   (pq_get q = GetRaised e rest \<longrightarrow> set rest \<subseteq> set q)"
proof (cases "q = []")
  case True
  then show ?thesis by (simp add: pq_get_def)
next
  case False
  obtain r rest' where h: "heappop q = (r, rest')" by (cases "heappop q")
  with heappop_keeps [OF False] False show ?thesis
    by (cases r) (auto simp: pq_get_def)
qed


subsection \<open>Rounding\<close>

lemmas round_defs =
  round_magnitude_def round_to_quantum_def quantum_def binary_exponent_def halvings.simps
  doublings.simps round_half_even_def Let_def

lemma halvings_bounds: "1 \<le> x \<Longrightarrow> 2 ^ halvings x \<le> x \<and> x < 2 * 2 ^ halvings x"
proof (induction x rule: halvings.induct)
  case (1 x)
  show ?case
  proof (cases "x < 2")
    case True
    with "1.prems" show ?thesis by (simp add: halvings.simps [of x])
  next
    case False
    then have "1 \<le> x / 2" by simp
    with "1.IH" [OF False] have "2 ^ halvings (x / 2) \<le> x / 2 \<and> x / 2 < 2 * 2 ^ halvings (x / 2)"
      by simp
    with False show ?thesis by (simp add: halvings.simps [of x])
  qed
qed

lemma doublings_bounds:
  "0 < x \<Longrightarrow> x < 1 \<Longrightarrow> 1 \<le> x * 2 ^ doublings x \<and> x * 2 ^ doublings x < 2"
proof (induction x rule: doublings.induct)
  case (1 x)
  from "1.prems" have c: "\<not> (1 \<le> x \<or> x \<le> 0)" by simp
  show ?case
  proof (cases "1 \<le> x * 2")
    case True
    then have "doublings (x * 2) = 0" by (simp add: doublings.simps [of "x * 2"])
    with c True "1.prems" show ?thesis by (simp add: doublings.simps [of x])
  next
    case False
    with "1.IH" [OF c] "1.prems"
    have "1 \<le> x * 2 * 2 ^ doublings (x * 2) \<and> x * 2 * 2 ^ doublings (x * 2) < 2" by simp
    with c show ?thesis by (simp add: doublings.simps [of x] mult.assoc)
  qed
qed

text \<open>The binary exponent is the one that brackets the number.\<close>

lemma binary_exponent_bounds:
  assumes "0 < x"
  shows "2 powi binary_exponent x \<le> x \<and> x < 2 powi (binary_exponent x + 1)"
proof (cases "1 \<le> x")
  case True
  with halvings_bounds [OF True] show ?thesis
    by (simp add: binary_exponent_def power_int_add)
next
  case False
  with assms doublings_bounds [of x]
  have b: "1 \<le> x * 2 ^ doublings x" "x * 2 ^ doublings x < 2" by simp_all
  have p: "(2::real) powi (- int (doublings x)) = 1 / 2 ^ doublings x"
    by (simp add: power_int_minus field_simps)
  have "(2::real) powi (1 + - int (doublings x)) = 2 powi 1 * 2 powi (- int (doublings x))"
    by (rule power_int_add) simp
  then have q: "(2::real) powi (1 - int (doublings x)) = 2 / 2 ^ doublings x"
    by (simp add: p)
  from b have "1 / 2 ^ doublings x \<le> x" "x < 2 / 2 ^ doublings x"
    by (simp_all add: field_simps)
  with False show ?thesis by (simp add: binary_exponent_def p q)
qed

lemma binary_exponent_unique:
  assumes "2 powi k \<le> x" "x < 2 powi (k + 1)"
  shows "binary_exponent x = k"
proof -
  have "(0::real) < 2 powi k" by (simp add: zero_less_power_int)
  with assms have pos: "0 < x" by linarith
  note b = binary_exponent_bounds [OF pos]
  have "\<not> k + 1 \<le> binary_exponent x"
  proof
    assume "k + 1 \<le> binary_exponent x"
    then have "(2::real) powi (k + 1) \<le> 2 powi binary_exponent x"
      by (rule power_int_increasing) simp
    with b assms show False by linarith
  qed
  moreover have "\<not> binary_exponent x + 1 \<le> k"
  proof
    assume "binary_exponent x + 1 \<le> k"
    then have "(2::real) powi (binary_exponent x + 1) \<le> 2 powi k"
      by (rule power_int_increasing) simp
    with b assms show False by linarith
  qed
  ultimately show ?thesis by linarith
qed

lemma binary_exponent_mono:
  assumes "0 < x" "x \<le> y"
  shows "binary_exponent x \<le> binary_exponent y"
proof (rule ccontr)
  assume "\<not> binary_exponent x \<le> binary_exponent y"
  then have "binary_exponent y + 1 \<le> binary_exponent x" by simp
  then have "(2::real) powi (binary_exponent y + 1) \<le> 2 powi binary_exponent x"
    by (rule power_int_increasing) simp
  moreover from assms have "0 < y" by simp
  ultimately show False
    using binary_exponent_bounds [OF assms(1)] binary_exponent_bounds [OF \<open>0 < y\<close>] assms(2)
    by linarith
qed

lemma power_int_split_53: "(2::real) powi (e + 1) = 2 ^ 53 * 2 powi (e - 52)"
proof -
  have "(2::real) powi (53 + (e - 52)) = 2 powi 53 * 2 powi (e - 52)"
    by (rule power_int_add) simp
  moreover have "53 + (e - 52) = e + 1" by simp
  ultimately have "(2::real) powi (e + 1) = 2 powi 53 * 2 powi (e - 52)" by (simp only:)
  then show ?thesis by simp
qed

lemma power_int_split_52: "(2::real) powi e = 2 ^ 52 * 2 powi (e - 52)"
proof -
  have "(2::real) powi (52 + (e - 52)) = 2 powi 52 * 2 powi (e - 52)"
    by (rule power_int_add) simp
  moreover have "52 + (e - 52) = e" by simp
  ultimately have "(2::real) powi e = 2 powi 52 * 2 powi (e - 52)" by (simp only:)
  then show ?thesis by simp
qed

lemma round_half_even_int: "round_half_even (of_int n) = n"
  by (simp add: round_half_even_def)

lemma round_half_even_floor:
  "round_half_even q = \<lfloor>q\<rfloor> \<or> round_half_even q = \<lfloor>q\<rfloor> + 1"
  by (simp add: round_half_even_def Let_def)

lemma round_half_even_mono:
  assumes "a \<le> b"
  shows "round_half_even a \<le> round_half_even b"
proof (cases "\<lfloor>a\<rfloor> < \<lfloor>b\<rfloor>")
  case True
  with round_half_even_floor [of a] round_half_even_floor [of b] show ?thesis by linarith
next
  case False
  with floor_mono [OF assms] have "\<lfloor>a\<rfloor> = \<lfloor>b\<rfloor>" by simp
  with assms show ?thesis by (auto simp: round_half_even_def Let_def)
qed

lemma round_half_even_le: "a \<le> of_int n \<Longrightarrow> round_half_even a \<le> n"
  using round_half_even_mono [of a "of_int n"] by (simp add: round_half_even_int)

lemma round_half_even_ge: "of_int n \<le> a \<Longrightarrow> n \<le> round_half_even a"
  using round_half_even_mono [of "of_int n" a] by (simp add: round_half_even_int)

lemma quantum_pos: "0 < quantum x"
  by (simp add: quantum_def zero_less_power_int)

lemma round_to_quantum_nonneg: "0 \<le> x \<Longrightarrow> 0 \<le> round_to_quantum x"
proof -
  assume "0 \<le> x"
  then have "of_int 0 \<le> x / quantum x" using quantum_pos [of x] by simp
  then have "0 \<le> round_half_even (x / quantum x)" by (rule round_half_even_ge)
  then show ?thesis using quantum_pos [of x] by (simp add: round_to_quantum_def)
qed

lemma round_to_quantum_upper:
  assumes "0 < x"
  shows "round_to_quantum x \<le> 2 powi (max (binary_exponent x) (- 1022) + 1)"
proof -
  let ?e = "max (binary_exponent x) (- 1022)"
  have q: "quantum x = 2 powi (?e - 52)" by (simp add: quantum_def)
  have split: "(2::real) powi (?e + 1) = 2 ^ 53 * quantum x"
    unfolding q by (rule power_int_split_53)
  have "x < 2 powi (binary_exponent x + 1)" using binary_exponent_bounds [OF assms] by simp
  also have "\<dots> \<le> 2 powi (?e + 1)" by (rule power_int_increasing) simp_all
  finally have "x < 2 ^ 53 * quantum x" by (simp only: split)
  then have "x / quantum x \<le> of_int (2 ^ 53)"
    using quantum_pos [of x] by (simp add: field_simps)
  then have "round_half_even (x / quantum x) \<le> 2 ^ 53" by (rule round_half_even_le)
  then have "of_int (round_half_even (x / quantum x)) \<le> (2 ^ 53 :: real)"
    by (metis of_int_le_iff of_int_numeral of_int_power)
  then have "round_to_quantum x \<le> 2 ^ 53 * quantum x"
    using quantum_pos [of x] by (simp add: round_to_quantum_def)
  then show ?thesis by (simp only: split)
qed

lemma round_to_quantum_lower:
  assumes "2 powi e \<le> x" "e = max (binary_exponent x) (- 1022)"
  shows "2 powi e \<le> round_to_quantum x"
proof -
  have q: "quantum x = 2 powi (e - 52)" by (simp add: quantum_def assms(2))
  have split: "(2::real) powi e = 2 ^ 52 * quantum x"
    unfolding q by (rule power_int_split_52)
  from assms(1) have "2 ^ 52 * quantum x \<le> x" by (simp only: split)
  then have "of_int (2 ^ 52) \<le> x / quantum x"
    using quantum_pos [of x] by (simp add: field_simps)
  then have "2 ^ 52 \<le> round_half_even (x / quantum x)" by (rule round_half_even_ge)
  then have "(2 ^ 52 :: real) \<le> of_int (round_half_even (x / quantum x))"
    by (metis of_int_le_iff of_int_numeral of_int_power)
  then have "2 ^ 52 * quantum x \<le> round_to_quantum x"
    using quantum_pos [of x] by (simp add: round_to_quantum_def)
  then show ?thesis by (simp only: split)
qed

text \<open>Rounding keeps the order of the magnitudes.\<close>

lemma round_to_quantum_mono:
  assumes "0 \<le> x" "x \<le> y"
  shows "round_to_quantum x \<le> round_to_quantum y"
proof (cases "x = 0")
  case True
  have "round_to_quantum 0 = 0" by (simp add: round_to_quantum_def round_half_even_def)
  with True assms round_to_quantum_nonneg [of y] show ?thesis by simp
next
  case False
  with assms have x: "0 < x" and y: "0 < y" by simp_all
  let ?ex = "max (binary_exponent x) (- 1022)"
  let ?ey = "max (binary_exponent y) (- 1022)"
  from binary_exponent_mono [OF x assms(2)] have le: "?ex \<le> ?ey" by simp
  show ?thesis
  proof (cases "?ex = ?ey")
    case True
    then have q: "quantum x = quantum y" by (simp add: quantum_def)
    from assms(2) have "x / quantum y \<le> y / quantum y"
      using quantum_pos [of y] by (simp add: divide_right_mono)
    then have "round_half_even (x / quantum y) \<le> round_half_even (y / quantum y)"
      by (rule round_half_even_mono)
    then show ?thesis using quantum_pos [of y] by (simp add: round_to_quantum_def q)
  next
    case False
    with le have lt: "?ex + 1 \<le> ?ey" by simp
    then have ey: "?ey = binary_exponent y" by simp
    have "round_to_quantum x \<le> 2 powi (?ex + 1)" by (rule round_to_quantum_upper [OF x])
    also from lt have "\<dots> \<le> 2 powi ?ey" by (rule power_int_increasing) simp
    also have "\<dots> \<le> round_to_quantum y"
    proof (rule round_to_quantum_lower)
      show "2 powi ?ey \<le> y" using binary_exponent_bounds [OF y] ey by simp
    qed simp
    finally show ?thesis .
  qed
qed

subsection \<open>Dismissal\<close>

text \<open>Calling the dismiss callback touches the call record and the error log only.\<close>

lemma run_dismiss_callback_frame:
  "active_notifications (snd (run_dismiss_callback n r c)) = active_notifications c"
  "notification_queue (snd (run_dismiss_callback n r c)) = notification_queue c"
  "notification_history (snd (run_dismiss_callback n r c)) = notification_history c"
  "stats (snd (run_dismiss_callback n r c)) = stats c"
  "config (snd (run_dismiss_callback n r c)) = config c"
  "is_active (snd (run_dismiss_callback n r c)) = is_active c"
  "do_not_disturb (snd (run_dismiss_callback n r c)) = do_not_disturb c"
  "tray_calls (snd (run_dismiss_callback n r c)) = tray_calls c"
  "dismiss_timers (snd (run_dismiss_callback n r c)) = dismiss_timers c"
  "dnd_timers (snd (run_dismiss_callback n r c)) = dnd_timers c"
  "unfinished_tasks (snd (run_dismiss_callback n r c)) = unfinished_tasks c"
  by (simp_all add: run_dismiss_callback_def Let_def split: option.splits callback_outcome.splits)

lemma run_dismiss_callback_result:
  "fst (run_dismiss_callback n r c) = map_option BaseException (callback_escapes n r)"
  by (simp add: run_dismiss_callback_def callback_escapes_def Let_def
      split: option.splits callback_outcome.splits)

lemma run_dismiss_callback_calls:
  "callback_calls (snd (run_dismiss_callback n r c))
     = (case dismiss_callback n of None \<Rightarrow> callback_calls c
        | Some cb \<Rightarrow> callback_calls c @ [(nid n, r)])"
  by (simp add: run_dismiss_callback_def Let_def split: option.splits callback_outcome.splits)

lemma run_dismiss_callback_log:
  "error_log (snd (run_dismiss_callback n r c))
     = (case dismiss_callback n of None \<Rightarrow> error_log c
        | Some cb \<Rightarrow>
            (case cb r of Returns \<Rightarrow> error_log c
             | Raises e \<Rightarrow> error_log c @ [ErrorInDismissCallback e]
             | RaisesBase e \<Rightarrow> error_log c))"
  by (simp add: run_dismiss_callback_def Let_def split: option.splits callback_outcome.splits)

lemma count_dismissed_frame:
  "active_notifications (count_dismissed c) = active_notifications c"
  "notification_queue (count_dismissed c) = notification_queue c"
  "notification_history (count_dismissed c) = notification_history c"
  "config (count_dismissed c) = config c"
  "is_active (count_dismissed c) = is_active c"
  "do_not_disturb (count_dismissed c) = do_not_disturb c"
  "tray_calls (count_dismissed c) = tray_calls c"
  "dismiss_timers (count_dismissed c) = dismiss_timers c"
  "dnd_timers (count_dismissed c) = dnd_timers c"
  "callback_calls (count_dismissed c) = callback_calls c"
  "error_log (count_dismissed c) = error_log c"
  "unfinished_tasks (count_dismissed c) = unfinished_tasks c"
  by (simp_all add: count_dismissed_def)

text \<open>The three ways a call of \<open>priv_dismiss_notification\<close> can go.\<close>

lemma priv_dismiss_cases:
  "(map_of (active_notifications c) k = None \<and> priv_dismiss_notification c k r = (Inr False, c)) \<or>
   (\<exists>n. map_of (active_notifications c) k = Some n \<and> callback_escapes n r = None \<and>
      priv_dismiss_notification c k r =
        (Inr True,
         count_dismissed (snd (run_dismiss_callback n r
           (c\<lparr>active_notifications := AList.delete k (active_notifications c)\<rparr>))))) \<or>
   (\<exists>n e. map_of (active_notifications c) k = Some n \<and> callback_escapes n r = Some e \<and>
      priv_dismiss_notification c k r =
        (Inl (BaseException e),
         snd (run_dismiss_callback n r
           (c\<lparr>active_notifications := AList.delete k (active_notifications c)\<rparr>))))"
proof (cases "map_of (active_notifications c) k")
  case None
  then show ?thesis by (simp add: priv_dismiss_notification_def)
next
  case (Some n)
  let ?c0 = "c\<lparr>active_notifications := AList.delete k (active_notifications c)\<rparr>"
  obtain err c' where r: "run_dismiss_callback n r ?c0 = (err, c')"
    by (cases "run_dismiss_callback n r ?c0")
  with run_dismiss_callback_result [of n r ?c0]
  have err: "err = map_option BaseException (callback_escapes n r)" by simp
  show ?thesis
  proof (cases "callback_escapes n r")
    case None
    with Some r err show ?thesis by (simp add: priv_dismiss_notification_def)
  next
    case (Some e)
    with \<open>map_of (active_notifications c) k = Some n\<close> r err show ?thesis
      by (simp add: priv_dismiss_notification_def)
  qed
qed

lemma priv_dismiss_active:
  "active_notifications (snd (priv_dismiss_notification c k r))
     = AList.delete k (active_notifications c)"
proof -
  have "AList.delete k (active_notifications c) = active_notifications c"
    if "map_of (active_notifications c) k = None"
  proof -
    from that have "k \<notin> fst ` set (active_notifications c)"
      by (simp add: map_of_eq_None_iff)
    then show ?thesis by (simp add: delete_id)
  qed
  with priv_dismiss_cases [of c k r] show ?thesis
    by (auto simp: count_dismissed_frame run_dismiss_callback_frame)
qed

lemma priv_dismiss_frame:
  "notification_queue (snd (priv_dismiss_notification c k r)) = notification_queue c"
  "notification_history (snd (priv_dismiss_notification c k r)) = notification_history c"
  "config (snd (priv_dismiss_notification c k r)) = config c"
  "is_active (snd (priv_dismiss_notification c k r)) = is_active c"
  "do_not_disturb (snd (priv_dismiss_notification c k r)) = do_not_disturb c"
  "tray_calls (snd (priv_dismiss_notification c k r)) = tray_calls c"
  "dismiss_timers (snd (priv_dismiss_notification c k r)) = dismiss_timers c"
  "dnd_timers (snd (priv_dismiss_notification c k r)) = dnd_timers c"
  "unfinished_tasks (snd (priv_dismiss_notification c k r)) = unfinished_tasks c"
  using priv_dismiss_cases [of c k r]
  by (auto simp: count_dismissed_frame run_dismiss_callback_frame)

text \<open>A dismissal whose callback lets nothing escape, and one whose callback does.\<close>

lemma priv_dismiss_found:
  assumes "map_of (active_notifications c) k = Some n" "callback_escapes n r = None"
  shows "fst (priv_dismiss_notification c k r) = Inr True \<and>
     dismissed_count (stats (snd (priv_dismiss_notification c k r)))
       = dismissed_count (stats c) + 1 \<and>
     callback_calls (snd (priv_dismiss_notification c k r))
       = (case dismiss_callback n of None \<Rightarrow> callback_calls c
          | Some cb \<Rightarrow> callback_calls c @ [(nid n, r)])"
  using priv_dismiss_cases [of c k r] assms
  by (auto simp: count_dismissed_def run_dismiss_callback_frame run_dismiss_callback_calls
      split: option.splits)

lemma priv_dismiss_escapes:
  assumes "map_of (active_notifications c) k = Some n" "callback_escapes n r = Some e"
  shows "fst (priv_dismiss_notification c k r) = Inl (BaseException e) \<and>
     stats (snd (priv_dismiss_notification c k r)) = stats c \<and>
     callback_calls (snd (priv_dismiss_notification c k r)) = callback_calls c @ [(nid n, r)] \<and>
     error_log (snd (priv_dismiss_notification c k r)) = error_log c"
proof -
  from assms(2) obtain cb where cb: "dismiss_callback n = Some cb" "cb r = RaisesBase e"
    by (auto simp: callback_escapes_def split: option.splits callback_outcome.splits)
  with priv_dismiss_cases [of c k r] assms show ?thesis
    by (auto simp: run_dismiss_callback_frame run_dismiss_callback_calls run_dismiss_callback_log)
qed

lemma dismiss_replaced_active:
  "active_notifications (snd (dismiss_replaced c n))
     = (case replace_target c n of None \<Rightarrow> active_notifications c
        | Some r \<Rightarrow> AList.delete r (active_notifications c))"
proof (cases "replace_target c n")
  case None
  then show ?thesis by (simp add: dismiss_replaced_def)
next
  case (Some r)
  obtain res c1 where p: "priv_dismiss_notification c r ''replaced'' = (res, c1)"
    by (cases "priv_dismiss_notification c r ''replaced''")
  with priv_dismiss_active [of c r "''replaced''"] Some show ?thesis
    by (cases res) (simp_all add: dismiss_replaced_def)
qed

lemma dismiss_replaced_frame:
  "notification_queue (snd (dismiss_replaced c n)) = notification_queue c"
  "notification_history (snd (dismiss_replaced c n)) = notification_history c"
  "config (snd (dismiss_replaced c n)) = config c"
  "is_active (snd (dismiss_replaced c n)) = is_active c"
  "do_not_disturb (snd (dismiss_replaced c n)) = do_not_disturb c"
  "tray_calls (snd (dismiss_replaced c n)) = tray_calls c"
  "dismiss_timers (snd (dismiss_replaced c n)) = dismiss_timers c"
  "dnd_timers (snd (dismiss_replaced c n)) = dnd_timers c"
  "unfinished_tasks (snd (dismiss_replaced c n)) = unfinished_tasks c"
proof -
  have "\<exists>r. snd (dismiss_replaced c n) = c \<or>
      snd (dismiss_replaced c n) = snd (priv_dismiss_notification c r ''replaced'')"
  proof (cases "replace_target c n")
    case None
    then show ?thesis by (simp add: dismiss_replaced_def)
  next
    case (Some r)
    obtain res c1 where "priv_dismiss_notification c r ''replaced'' = (res, c1)"
      by (cases "priv_dismiss_notification c r ''replaced''")
    with Some have "snd (dismiss_replaced c n) = snd (priv_dismiss_notification c r ''replaced'')"
      by (cases res) (simp_all add: dismiss_replaced_def)
    then show ?thesis by blast
  qed
  then obtain r where "snd (dismiss_replaced c n) = c \<or>
      snd (dismiss_replaced c n) = snd (priv_dismiss_notification c r ''replaced'')" by blast
  then show
    "notification_queue (snd (dismiss_replaced c n)) = notification_queue c"
    "notification_history (snd (dismiss_replaced c n)) = notification_history c"
    "config (snd (dismiss_replaced c n)) = config c"
    "is_active (snd (dismiss_replaced c n)) = is_active c"
    "do_not_disturb (snd (dismiss_replaced c n)) = do_not_disturb c"
    "tray_calls (snd (dismiss_replaced c n)) = tray_calls c"
    "dismiss_timers (snd (dismiss_replaced c n)) = dismiss_timers c"
    "dnd_timers (snd (dismiss_replaced c n)) = dnd_timers c"
    "unfinished_tasks (snd (dismiss_replaced c n)) = unfinished_tasks c"
    by (auto simp: priv_dismiss_frame)
qed

lemma enqueue_frame:
  "active_notifications (snd (enqueue c n)) = active_notifications c"
  "notification_queue (snd (enqueue c n))
     = snd (pq_put (queue_key_of n, n) (notification_queue c))"
  "notification_history (snd (enqueue c n)) = notification_history c"
  "config (snd (enqueue c n)) = config c"
  "is_active (snd (enqueue c n)) = is_active c"
  "do_not_disturb (snd (enqueue c n)) = do_not_disturb c"
  "tray_calls (snd (enqueue c n)) = tray_calls c"
  "dismiss_timers (snd (enqueue c n)) = dismiss_timers c"
  "dnd_timers (snd (enqueue c n)) = dnd_timers c"
  "stats (snd (enqueue c n)) = stats c"
  "callback_calls (snd (enqueue c n)) = callback_calls c"
  "error_log (snd (enqueue c n)) = error_log c"
  by (simp_all add: enqueue_def split: prod.splits option.splits)

subsection \<open>Showing\<close>

lemma generated_id_nonempty: "generated_id env n = Inr i \<Longrightarrow> i \<noteq> []"
  by (auto simp: generated_id_def split: sum.splits)

lemma ensure_id_given: "nid n \<noteq> [] \<Longrightarrow> ensure_id env n = Inr n"
  by (simp add: ensure_id_def)

text \<open>A notification leaves \<open>ensure_id\<close> with an identifier and is otherwise the same.\<close>

lemma ensure_id_cases:
  "(\<exists>e. ensure_id env n = Inl e) \<or> (\<exists>i. i \<noteq> [] \<and> ensure_id env n = Inr (n\<lparr>nid := i\<rparr>))"
proof (cases "nid n = []")
  case False
  then have "nid n \<noteq> [] \<and> ensure_id env n = Inr (n\<lparr>nid := nid n\<rparr>)"
    by (simp add: ensure_id_def)
  then show ?thesis by blast
next
  case True
  then show ?thesis
    by (cases "generated_id env n") (auto simp: ensure_id_def dest: generated_id_nonempty)
qed

lemma ensure_id_fields:
  assumes "ensure_id env n = Inr n'"
  shows "priority n' = priority n" "timestamp n' = timestamp n" "replace_id n' = replace_id n"
    "title n' = title n" "message n' = message n" "duration n' = duration n"
    "click_callback n' = click_callback n" "nid n' \<noteq> []"
  using ensure_id_cases [of env n] assms by auto

lemma blocked_ensure_id:
  "ensure_id env n = Inr n' \<Longrightarrow> blocked_by_dnd c n' = blocked_by_dnd c n"
  by (simp add: blocked_by_dnd_def ensure_id_fields)

lemma replace_target_ensure_id:
  "ensure_id env n = Inr n' \<Longrightarrow> replace_target c n' = replace_target c n"
  by (simp add: replace_target_def ensure_id_fields)

lemma show_notification_blocked:
  "ensure_id env n = Inr n' \<Longrightarrow> blocked_by_dnd c n \<Longrightarrow>
     show_notification env c n = (Inr (nid n'), c)"
  by (simp add: show_notification_def blocked_ensure_id)

lemma show_notification_passed:
  "ensure_id env n = Inr n' \<Longrightarrow> \<not> blocked_by_dnd c n \<Longrightarrow>
     show_notification env c n
       = (case dismiss_replaced c n' of
            (Some e, c1) \<Rightarrow> (Inl e, c1)
          | (None, c1) \<Rightarrow> enqueue c1 n')"
  by (simp add: show_notification_def blocked_ensure_id)

lemma delete_is_filter: "\<exists>P. AList.delete k al = filter P al"
  by (auto simp: AList.delete_eq)

lemma filter_of_filter: "\<exists>P. filter Q (filter R al) = filter P al"
  by (metis filter_filter)

lemma same_is_filter: "\<exists>P. (al :: 'a list) = filter P al"
proof -
  have "al = filter (\<lambda>x. True) al" by simp
  then show ?thesis by blast
qed

lemma priv_dismiss_filter:
  "\<exists>P. active_notifications (snd (priv_dismiss_notification c k r))
     = filter P (active_notifications c)"
  by (simp add: priv_dismiss_active delete_is_filter)

lemma dismiss_replaced_filter:
  "\<exists>P. active_notifications (snd (dismiss_replaced c n)) = filter P (active_notifications c)"
  by (cases "replace_target c n")
     (simp_all add: dismiss_replaced_active delete_is_filter same_is_filter)

text \<open>What a call of \<open>show_notification\<close> can do to the centre.\<close>

lemma show_notification_effect:
  "(\<exists>P. active_notifications (snd (show_notification env c n))
      = filter P (active_notifications c)) \<and>
   notification_history (snd (show_notification env c n)) = notification_history c \<and>
   config (snd (show_notification env c n)) = config c \<and>
   tray_calls (snd (show_notification env c n)) = tray_calls c \<and>
   (notification_queue (snd (show_notification env c n)) = notification_queue c \<or>
    (\<exists>m. nid m \<noteq> [] \<and>
       notification_queue (snd (show_notification env c n))
         = snd (pq_put (queue_key_of m, m) (notification_queue c))))"
proof (cases "ensure_id env n")
  case (Inl e)
  then show ?thesis by (simp add: show_notification_def same_is_filter)
next
  case (Inr n')
  show ?thesis
  proof (cases "blocked_by_dnd c n")
    case True
    with Inr show ?thesis by (simp add: show_notification_blocked same_is_filter)
  next
    case False
    obtain err c1 where d: "dismiss_replaced c n' = (err, c1)"
      by (cases "dismiss_replaced c n'")
    from dismiss_replaced_filter [of c n'] d obtain P where
      P: "active_notifications c1 = filter P (active_notifications c)" by auto
    from dismiss_replaced_frame [of c n'] d have f:
      "notification_queue c1 = notification_queue c"
      "notification_history c1 = notification_history c"
      "config c1 = config c" "tray_calls c1 = tray_calls c"
      by simp_all
    show ?thesis
    proof (cases err)
      case (Some e)
      with Inr False d P f show ?thesis by (auto simp: show_notification_passed)
    next
      case None
      from Inr have "nid n' \<noteq> []" by (rule ensure_id_fields)
      then have "\<exists>m. nid m \<noteq> [] \<and>
          snd (pq_put (queue_key_of n', n') (notification_queue c))
            = snd (pq_put (queue_key_of m, m) (notification_queue c))"
        by blast
      with None Inr False d P f show ?thesis
        by (auto simp: show_notification_passed enqueue_frame)
    qed
  qed
qed

text \<open>The loop over a list of identifiers only removes from the active set.\<close>

lemma dismiss_each_effect:
  "(\<exists>P. active_notifications (snd (dismiss_each r ks d c))
     = filter P (active_notifications c)) \<and>
   notification_history (snd (dismiss_each r ks d c)) = notification_history c \<and>
   notification_queue (snd (dismiss_each r ks d c)) = notification_queue c \<and>
   config (snd (dismiss_each r ks d c)) = config c \<and>
   tray_calls (snd (dismiss_each r ks d c)) = tray_calls c"
proof (induction ks arbitrary: d c)
  case Nil
  show ?case by (simp add: same_is_filter)
next
  case (Cons k ks)
  obtain res c1 where p: "priv_dismiss_notification c k r = (res, c1)"
    by (cases "priv_dismiss_notification c k r")
  from priv_dismiss_filter [of c k r] p obtain Q where
    Q: "active_notifications c1 = filter Q (active_notifications c)" by auto
  from priv_dismiss_frame [of c k r] p have f:
    "notification_queue c1 = notification_queue c"
    "notification_history c1 = notification_history c"
    "config c1 = config c" "tray_calls c1 = tray_calls c"
    by simp_all
  show ?case
  proof (cases res)
    case (Inl e)
    with p Q f show ?thesis by auto
  next
    case (Inr b)
    let ?d = "if b then d + 1 else d"
    from Cons.IH [of ?d c1] obtain P where
      P: "active_notifications (snd (dismiss_each r ks ?d c1)) = filter P (active_notifications c1)"
      by blast
    have "\<exists>R. filter P (filter Q (active_notifications c)) = filter R (active_notifications c)"
      by (rule filter_of_filter)
    with P Q f Cons.IH [of ?d c1] Inr p show ?thesis by simp
  qed
qed

lemma clear_all_state:
  "snd (clear_all_notifications c)
     = snd (dismiss_each ''cleared_all'' (map fst (active_notifications c)) 0 c)"
  by (simp add: clear_all_notifications_def Let_def split: prod.splits sum.splits)

lemma auto_dismiss_wakes_effect:
  "(\<exists>P. active_notifications (auto_dismiss_wakes env c k d) = filter P (active_notifications c)) \<and>
   notification_history (auto_dismiss_wakes env c k d) = notification_history c \<and>
   notification_queue (auto_dismiss_wakes env c k d) = notification_queue c \<and>
   config (auto_dismiss_wakes env c k d) = config c \<and>
   tray_calls (auto_dismiss_wakes env c k d) = tray_calls c"
proof -
  let ?c0 = "c\<lparr>dismiss_timers := remove1 (k, d) (dismiss_timers c)\<rparr>"
  have "auto_dismiss_wakes env c k d = c \<or> auto_dismiss_wakes env c k d = ?c0 \<or>
      auto_dismiss_wakes env c k d = snd (priv_dismiss_notification ?c0 k ''auto_dismissed'')"
    by (simp add: auto_dismiss_wakes_def Let_def split: sum.splits)
  moreover have "\<exists>P. active_notifications (snd (priv_dismiss_notification ?c0 k ''auto_dismissed''))
      = filter P (active_notifications ?c0)"
    by (rule priv_dismiss_filter)
  ultimately show ?thesis
    by (auto simp: priv_dismiss_frame same_is_filter)
qed

text \<open>What an event other than an iteration of the worker can do to the centre.\<close>

lemma event_step_effect:
  assumes "ev \<noteq> WorkerIteration"
  shows "(\<exists>P. active_notifications (event_step env ev c) = filter P (active_notifications c)) \<and>
   notification_history (event_step env ev c) = notification_history c \<and>
   config (event_step env ev c) = config c \<and>
   (notification_queue (event_step env ev c) = notification_queue c \<or>
    (\<exists>m. nid m \<noteq> [] \<and>
       notification_queue (event_step env ev c)
         = snd (pq_put (queue_key_of m, m) (notification_queue c))))"
proof (cases ev)
  case (ShowNotification n)
  then show ?thesis using show_notification_effect [of env c n] by simp
next
  case (ShowClaudeNotification operation status d)
  then show ?thesis
    using show_notification_effect [of env
        "c\<lparr>stats := (stats c)\<lparr>claude_notifications := claude_notifications (stats c) + 1\<rparr>\<rparr>"
        "claude_notification env operation status d"]
    by (simp add: show_claude_notification_def Let_def)
next
  case (ShowProgressNotification operation_id t progress status_text)
  show ?thesis
  proof (cases "progress_notification env operation_id t progress status_text")
    case (Inl e)
    with ShowProgressNotification show ?thesis
      by (simp add: show_progress_notification_def same_is_filter)
  next
    case (Inr notification)
    with ShowProgressNotification show ?thesis
      using show_notification_effect [of env c notification]
      by (simp add: show_progress_notification_def)
  qed
next
  case (ShowSystemStatus component status d)
  let ?c1 = "update_tray_status c component status"
  have u: "active_notifications ?c1 = active_notifications c"
    "notification_history ?c1 = notification_history c"
    "config ?c1 = config c" "notification_queue ?c1 = notification_queue c"
    by (simp_all add: update_tray_status_def split: option.splits)
  from ShowSystemStatus show ?thesis
    using show_notification_effect [of env
        "?c1\<lparr>stats := (stats ?c1)\<lparr>system_notifications := system_notifications (stats ?c1) + 1\<rparr>\<rparr>"
        "system_status_notification env component status d"] u
    by (simp add: show_system_status_def Let_def)
next
  case (ShowCostAlert current_cost threshold period)
  have "snd (show_cost_alert env c current_cost threshold period) = c \<or>
      (\<exists>notification. snd (show_cost_alert env c current_cost threshold period)
         = snd (show_notification env c notification))"
    by (auto simp: show_cost_alert_def split: sum.splits)
  then show ?thesis
  proof
    assume "snd (show_cost_alert env c current_cost threshold period) = c"
    with ShowCostAlert show ?thesis by (simp add: same_is_filter)
  next
    assume "\<exists>notification. snd (show_cost_alert env c current_cost threshold period)
         = snd (show_notification env c notification)"
    then obtain notification where
      "snd (show_cost_alert env c current_cost threshold period)
         = snd (show_notification env c notification)" by blast
    with ShowCostAlert show ?thesis
      using show_notification_effect [of env c notification] by simp
  qed
next
  case (DismissNotification notification_id reason)
  then show ?thesis
    by (simp add: dismiss_notification_def priv_dismiss_filter priv_dismiss_frame)
next
  case (DismissGroup g)
  then show ?thesis
    using dismiss_each_effect [of "''group_dismissed''"
        "map fst (filter (\<lambda>(k, notif). group_id notif = Some g) (active_notifications c))" 0 c]
    by (simp add: dismiss_group_def Let_def)
next
  case (SetDoNotDisturb enabled duration_minutes)
  then show ?thesis
    by (simp add: set_do_not_disturb_def Let_def same_is_filter split: option.splits)
next
  case ClearAllNotifications
  then show ?thesis
    using dismiss_each_effect [of "''cleared_all''" "map fst (active_notifications c)" 0 c]
    by (simp add: clear_all_state)
next
  case Stop
  then show ?thesis by (simp add: stop_def same_is_filter)
next
  case WorkerIteration
  with assms show ?thesis by simp
next
  case (AutoDismissWakes notification_id d)
  then show ?thesis using auto_dismiss_wakes_effect [of env c notification_id d] by simp
next
  case (DndTimerWakes m)
  then show ?thesis by (simp add: dnd_timer_wakes_def Let_def same_is_filter)
qed

text \<open>Induction over a run.\<close>

lemma run_invariant:
  assumes "P c" and "\<And>env ev c'. P c' \<Longrightarrow> P (event_step env ev c')"
  shows "P (run c evs)"
  using assms(1)
proof (induction evs arbitrary: c)
  case Nil
  then show ?case by simp
next
  case (Cons x evs)
  obtain env ev where x: "x = (env, ev)" by (cases x)
  from Cons.prems have "P (event_step env ev c)" by (rule assms(2))
  then have "P (run (event_step env ev c) evs)" by (rule Cons.IH)
  with x show ?case by simp
qed

lemma display_notification_fields:
  "active_notifications (display_notification c n)
     = AList.update (nid n) n (active_notifications c)"
  "notification_history (display_notification c n) = append_history c n"
  "notification_queue (display_notification c n) = notification_queue c"
  "config (display_notification c n) = config c"
  "tray_calls (display_notification c n)
     = tray_calls c @ [TrayShowNotification (tray_projection n)]"
  "total_sent (stats (display_notification c n)) = total_sent (stats c) + 1"
  by (simp_all add: display_notification_def Let_def append_history_def)

lemma requeue_fields:
  "active_notifications (requeue c e) = active_notifications c"
  "notification_history (requeue c e) = notification_history c"
  "notification_queue (requeue c e) = snd (pq_put e (notification_queue c))"
  "config (requeue c e) = config c"
  "tray_calls (requeue c e) = tray_calls c"
  by (simp_all add: requeue_def split: prod.splits option.splits)

lemma task_done_fields:
  "active_notifications (task_done c) = active_notifications c"
  "notification_history (task_done c) = notification_history c"
  "notification_queue (task_done c) = notification_queue c"
  "config (task_done c) = config c"
  "tray_calls (task_done c) = tray_calls c"
  "stats (task_done c) = stats c"
  by (simp_all add: task_done_def)

text \<open>The four ways an iteration of the worker can go.\<close>

lemma process_notification_queue_cases:
  "process_notification_queue c = c \<or>
   (\<exists>err rest. pq_get (notification_queue c) = GetRaised err rest \<and>
      process_notification_queue c
        = c\<lparr>notification_queue := rest,
            error_log := error_log c @ [ErrorProcessingQueue err]\<rparr>) \<or>
   (\<exists>e rest. pq_get (notification_queue c) = Got e rest \<and> at_capacity c \<and>
      process_notification_queue c = requeue (c\<lparr>notification_queue := rest\<rparr>) e) \<or>
   (\<exists>k n rest. pq_get (notification_queue c) = Got (k, n) rest \<and> \<not> at_capacity c \<and>
      process_notification_queue c
        = task_done (display_notification (c\<lparr>notification_queue := rest\<rparr>) n))"
proof (cases "is_active c")
  case False
  then show ?thesis by (simp add: process_notification_queue_def)
next
  case True
  show ?thesis
  proof (cases "pq_get (notification_queue c)")
    case QueueEmpty
    with True show ?thesis by (simp add: process_notification_queue_def)
  next
    case (GetRaised err rest)
    with True show ?thesis by (simp add: process_notification_queue_def)
  next
    case (Got e rest)
    obtain k n where e: "e = (k, n)" by (cases e)
    have cap: "at_capacity (c\<lparr>notification_queue := rest\<rparr>) = at_capacity c"
      by (simp add: at_capacity_def)
    from True Got e cap show ?thesis
      by (simp add: process_notification_queue_def Let_def)
  qed
qed

lemma process_notification_queue_config:
  "config (process_notification_queue c) = config c"
  using process_notification_queue_cases [of c]
  by (auto simp: requeue_fields display_notification_fields task_done_fields)

lemma event_step_config: "config (event_step env ev c) = config c"
proof (cases "ev = WorkerIteration")
  case True
  then show ?thesis by (simp add: process_notification_queue_config)
next
  case False
  then show ?thesis using event_step_effect [of ev env c] by simp
qed

lemma run_config: "config (run c evs) = config c"
  by (rule run_invariant [where P = "\<lambda>c'. config c' = config c"])
     (simp_all add: event_step_config)

lemma length_update_le: "length (AList.update k v al) \<le> Suc (length al)"
  by (induction al) simp_all

text \<open>The active set stays below the cap.\<close>

lemma event_step_capacity:
  assumes "int (length (active_notifications c)) \<le> max_simultaneous (config c)"
  shows "int (length (active_notifications (event_step env ev c)))
     \<le> max_simultaneous (config (event_step env ev c))"
proof (cases "ev = WorkerIteration")
  case False
  from event_step_effect [OF False, of env c] obtain P where
    "active_notifications (event_step env ev c) = filter P (active_notifications c)"
    and "config (event_step env ev c) = config c" by blast
  moreover have "int (length (filter P (active_notifications c)))
      \<le> int (length (active_notifications c))"
    by simp
  ultimately show ?thesis using assms by (metis order_trans)
next
  case True
  from process_notification_queue_cases [of c] show ?thesis
  proof (elim disjE exE conjE)
    assume "process_notification_queue c = c"
    with True assms show ?thesis by simp
  next
    fix err rest
    assume "process_notification_queue c
        = c\<lparr>notification_queue := rest,
            error_log := error_log c @ [ErrorProcessingQueue err]\<rparr>"
    with True assms show ?thesis by simp
  next
    fix e rest
    assume "process_notification_queue c = requeue (c\<lparr>notification_queue := rest\<rparr>) e"
    with True assms show ?thesis by (simp add: requeue_fields)
  next
    fix k n rest
    assume room: "\<not> at_capacity c"
      and d: "process_notification_queue c
        = task_done (display_notification (c\<lparr>notification_queue := rest\<rparr>) n)"
    have "length (AList.update (nid n) n (active_notifications c))
        \<le> Suc (length (active_notifications c))"
      by (rule length_update_le)
    with room True d show ?thesis
      by (simp add: display_notification_fields task_done_fields at_capacity_def)
  qed
qed

text \<open>The history stays within its bound.\<close>

lemma append_history_bound:
  assumes "int (length (notification_history c)) \<le> history_limit (config c)"
  shows "int (length (append_history c n)) \<le> history_limit (config c)"
  using assms by (simp add: append_history_def Let_def)

lemma event_step_history:
  assumes "int (length (notification_history c)) \<le> history_limit (config c)"
  shows "int (length (notification_history (event_step env ev c)))
     \<le> history_limit (config (event_step env ev c))"
proof (cases "ev = WorkerIteration")
  case False
  with event_step_effect [OF False, of env c] assms show ?thesis by simp
next
  case True
  from process_notification_queue_cases [of c] show ?thesis
  proof (elim disjE exE conjE)
    assume "process_notification_queue c = c"
    with True assms show ?thesis by simp
  next
    fix err rest
    assume "process_notification_queue c
        = c\<lparr>notification_queue := rest,
            error_log := error_log c @ [ErrorProcessingQueue err]\<rparr>"
    with True assms show ?thesis by simp
  next
    fix e rest
    assume "process_notification_queue c = requeue (c\<lparr>notification_queue := rest\<rparr>) e"
    with True assms show ?thesis by (simp add: requeue_fields)
  next
    fix k n rest
    assume d: "process_notification_queue c
        = task_done (display_notification (c\<lparr>notification_queue := rest\<rparr>) n)"
    have "int (length (append_history (c\<lparr>notification_queue := rest\<rparr>) n))
        \<le> history_limit (config (c\<lparr>notification_queue := rest\<rparr>))"
      by (rule append_history_bound) (use assms in simp)
    with True d show ?thesis
      by (simp add: display_notification_fields task_done_fields)
  qed
qed



lemma queue_ids_insert:
  assumes "[] \<notin> (\<lambda>e. nid (snd e)) ` set q" "nid m \<noteq> []"
  shows "[] \<notin> (\<lambda>e. nid (snd e)) ` set (snd (pq_put (k, m) q))"
  using assms by (force simp: pq_put_keeps)

lemma ids_ok_filter_active:
  assumes "ids_ok c" "active_notifications c' = filter P (active_notifications c)"
    "notification_queue c' = notification_queue c"
  shows "ids_ok c'"
proof -
  have "fst ` set (filter P (active_notifications c)) \<subseteq> fst ` set (active_notifications c)"
    by auto
  with assms show ?thesis
    by (auto simp: ids_ok_def distinct_map_filter)
qed

lemma ids_ok_event_step:
  assumes "ids_ok c"
  shows "ids_ok (event_step env ev c)"
proof (cases "ev = WorkerIteration")
  case False
  from event_step_effect [OF False, of env c] obtain P where
    a: "active_notifications (event_step env ev c) = filter P (active_notifications c)"
    and q: "notification_queue (event_step env ev c) = notification_queue c \<or>
      (\<exists>m. nid m \<noteq> [] \<and> notification_queue (event_step env ev c)
         = snd (pq_put (queue_key_of m, m) (notification_queue c)))"
    by blast
  have "fst ` set (filter P (active_notifications c)) \<subseteq> fst ` set (active_notifications c)"
    by auto
  moreover have "[] \<notin> (\<lambda>e. nid (snd e)) ` set (notification_queue (event_step env ev c))"
  proof -
    from assms have old: "[] \<notin> (\<lambda>e. nid (snd e)) ` set (notification_queue c)"
      by (simp add: ids_ok_def)
    from q show ?thesis
    proof
      assume "notification_queue (event_step env ev c) = notification_queue c"
      with old show ?thesis by simp
    next
      assume "\<exists>m. nid m \<noteq> [] \<and> notification_queue (event_step env ev c)
         = snd (pq_put (queue_key_of m, m) (notification_queue c))"
      then obtain m where "nid m \<noteq> []"
        and "notification_queue (event_step env ev c)
         = snd (pq_put (queue_key_of m, m) (notification_queue c))" by blast
      with old queue_ids_insert [of "notification_queue c" m "queue_key_of m"]
      show ?thesis by simp
    qed
  qed
  ultimately show ?thesis
    using assms a by (auto simp: ids_ok_def distinct_map_filter)
next
  case True
  from assms have old: "[] \<notin> (\<lambda>e. nid (snd e)) ` set (notification_queue c)"
    by (simp add: ids_ok_def)
  have sub: "[] \<notin> (\<lambda>e. nid (snd e)) ` set rest" if "set rest \<subseteq> set (notification_queue c)"
    for rest
    using old that by blast
  from process_notification_queue_cases [of c] show ?thesis
  proof (elim disjE exE conjE)
    assume "process_notification_queue c = c"
    with True assms show ?thesis by simp
  next
    fix err rest
    assume g: "pq_get (notification_queue c) = GetRaised err rest"
      and r: "process_notification_queue c
        = c\<lparr>notification_queue := rest,
            error_log := error_log c @ [ErrorProcessingQueue err]\<rparr>"
    from g pq_get_keeps [of "notification_queue c" undefined rest err]
    have "set rest \<subseteq> set (notification_queue c)" by simp
    then have "[] \<notin> (\<lambda>e. nid (snd e)) ` set rest" by (rule sub)
    with True assms r show ?thesis by (simp add: ids_ok_def)
  next
    fix e rest
    assume g: "pq_get (notification_queue c) = Got e rest"
      and r: "process_notification_queue c = requeue (c\<lparr>notification_queue := rest\<rparr>) e"
    from g pq_get_keeps [of "notification_queue c" e rest]
    have in_q: "e \<in> set (notification_queue c)" and "set rest \<subseteq> set (notification_queue c)"
      by simp_all
    then have "[] \<notin> (\<lambda>e. nid (snd e)) ` set rest" by (simp add: sub)
    moreover from in_q old have "nid (snd e) \<noteq> []" by force
    ultimately have "[] \<notin> (\<lambda>e. nid (snd e)) ` set (snd (pq_put e rest))"
      using queue_ids_insert [of rest "snd e" "fst e"] by simp
    with True assms r show ?thesis
      by (simp add: ids_ok_def requeue_fields)
  next
    fix k n rest
    assume g: "pq_get (notification_queue c) = Got (k, n) rest"
      and d: "process_notification_queue c
        = task_done (display_notification (c\<lparr>notification_queue := rest\<rparr>) n)"
    from g pq_get_keeps [of "notification_queue c" "(k, n)" rest]
    have in_q: "(k, n) \<in> set (notification_queue c)"
      and "set rest \<subseteq> set (notification_queue c)"
      by simp_all
    then have rest: "[] \<notin> (\<lambda>e. nid (snd e)) ` set rest" by (simp add: sub)
    from in_q old have n: "nid n \<noteq> []" by force
    from assms have "distinct (map fst (AList.update (nid n) n (active_notifications c)))"
      by (simp add: ids_ok_def distinct_update)
    moreover have "fst ` set (AList.update (nid n) n (active_notifications c))
        = {nid n} \<union> fst ` set (active_notifications c)"
      by (rule dom_update)
    ultimately show ?thesis
      using True d n rest assms
      by (simp add: ids_ok_def display_notification_fields task_done_fields)
  qed
qed

lemma ids_ok_new_center: "ids_ok (new_center cfg)"
  by (simp add: ids_ok_def new_center_def)

lemma ids_ok_run: "ids_ok (run (new_center cfg) evs)"
  by (rule run_invariant [where P = ids_ok]) (simp_all add: ids_ok_new_center ids_ok_event_step)

subsection \<open>Evaluation of the examples\<close>

lemmas example_defs =
  raising_center_def new_center_def default_config_def show_notification_def ensure_id_def
  raising_notification_def example_notification_def new_notification_def blocked_by_dnd_def
  dismiss_replaced_def replace_target_def enqueue_def pq_put_def heappush_def pq_get_def
  heappop_def siftup_def task_done_def siftdown.simps siftup_loop.simps queue_key_of_def
  process_notification_queue_def at_capacity_def display_notification_def Let_def
  append_history_def tray_projection_def no_details_def

lemma raising_center_active:
  "active_notifications raising_center = [(''a'', raising_notification)]"
  by (simp add: example_defs)

lemma raising_center_stats: "dismissed_count (stats raising_center) = 0"
  by (simp add: example_defs)

lemma raising_center_log: "error_log raising_center = []"
  by (simp add: example_defs)

lemma interrupting_center_eval:
  "active_notifications interrupting_center = [(''k'', interrupting_notification)]"
  "dismissed_count (stats interrupting_center) = 0"
  "error_log interrupting_center = []"
  "notification_queue interrupting_center = []"
  "callback_calls interrupting_center = []"
  "\<not> do_not_disturb interrupting_center"
  by (simp_all add: interrupting_center_def interrupting_notification_def example_defs)

lemma interrupting_notification_escapes:
  "callback_escapes interrupting_notification reason = Some ''KeyboardInterrupt''"
  "nid interrupting_notification = ''k''"
  by (simp_all add: callback_escapes_def interrupting_notification_def example_notification_def
      new_notification_def)

lemma raising_notification_caught:
  "callback_escapes raising_notification reason = None"
  "dismiss_callback raising_notification = Some (\<lambda>reason. Raises ''boom'')"
  "nid raising_notification = ''a''"
  by (simp_all add: callback_escapes_def raising_notification_def example_notification_def
      new_notification_def)

subsection \<open>Dismissing a notification\<close>

text \<open>
  C8. For an id that is not a key of the active set, \<^verbatim>\<open>dismiss_notification\<close> returns
  false and the state of the centre after the call is the state before it: counters,
  active set, queue, history and everything else.
\<close>

theorem dismiss_unknown_id_is_noop:
  assumes "notification_id \<notin> fst ` set (active_notifications c)"
  shows "dismiss_notification c notification_id reason = (Inr False, c)"
proof -
  from assms have "map_of (active_notifications c) notification_id = None"
    by (simp add: map_of_eq_None_iff)
  then show ?thesis
    by (simp add: dismiss_notification_def priv_dismiss_notification_def)
qed

theorem dismiss_unknown_id_is_noop_witness:
  "''b'' \<notin> fst ` set (active_notifications raising_center) \<and>
   dismiss_notification raising_center ''b'' ''user_dismissed'' = (Inr False, raising_center)"
proof -
  have h: "''b'' \<notin> fst ` set (active_notifications raising_center)"
    by (simp add: raising_center_active)
  from dismiss_unknown_id_is_noop [OF h] h show ?thesis by simp
qed

text \<open>
  C9, as stated, fails for a callback that raises outside \<^verbatim>\<open>Exception\<close>: the handler
  in \<^verbatim>\<open>_dismiss_notification\<close> is \<^verbatim>\<open>except Exception\<close>. The active notification \<open>k\<close>
  has a dismiss callback that raises \<^verbatim>\<open>KeyboardInterrupt\<close>; dismissing it raises that
  exception to the caller, after the notification has left the active set and with the
  dismissed counter and the error log as they were.
\<close>

theorem dismiss_interrupted_counterexample:
  "map_of (active_notifications interrupting_center) ''k'' = Some interrupting_notification \<and>
   dismiss_callback interrupting_notification = Some (\<lambda>reason. RaisesBase ''KeyboardInterrupt'') \<and>
   fst (dismiss_notification interrupting_center ''k'' ''user_dismissed'')
     = Inl (BaseException ''KeyboardInterrupt'') \<and>
   active_notifications (snd (dismiss_notification interrupting_center ''k'' ''user_dismissed''))
     = [] \<and>
   dismissed_count (stats interrupting_center) = 0 \<and>
   dismissed_count (stats (snd (dismiss_notification interrupting_center ''k'' ''user_dismissed'')))
     = 0 \<and>
   error_log (snd (dismiss_notification interrupting_center ''k'' ''user_dismissed'')) = []"
  by (simp add: interrupting_center_eval dismiss_notification_def priv_dismiss_notification_def
      run_dismiss_callback_def interrupting_notification_def Let_def)

text \<open>
  C9, amended. For an id that is a key of the active set, \<^verbatim>\<open>dismiss_notification\<close>
  takes the notification out of the active set whatever its dismiss callback does. When
  the callback returns or raises an instance of \<^verbatim>\<open>Exception\<close> (or there is none), the
  call returns true and the dismissed counter is one higher; an exception the callback
  raised is in the error log, the call of the callback is on record, and nothing reaches
  the caller. When the callback raises outside \<^verbatim>\<open>Exception\<close>, that exception reaches the
  caller and the counters are as they were.
\<close>

theorem dismiss_survives_callback:
  assumes "map_of (active_notifications c) notification_id = Some n"
  shows "\<exists>result c'. dismiss_notification c notification_id reason = (result, c') \<and>
      notification_id \<notin> fst ` set (active_notifications c') \<and>
      (case callback_escapes n reason of
         None \<Rightarrow>
           result = Inr True \<and>
           dismissed_count (stats c') = dismissed_count (stats c) + 1 \<and>
           (\<forall>cb e. dismiss_callback n = Some cb \<and> cb reason = Raises e \<longrightarrow>
              callback_calls c' = callback_calls c @ [(nid n, reason)] \<and>
              error_log c' = error_log c @ [ErrorInDismissCallback e])
       | Some name \<Rightarrow>
           result = Inl (BaseException name) \<and> stats c' = stats c \<and>
           error_log c' = error_log c)"
proof -
  obtain result c' where r: "priv_dismiss_notification c notification_id reason = (result, c')"
    by (cases "priv_dismiss_notification c notification_id reason")
  from priv_dismiss_active [of c notification_id reason] r
  have "active_notifications c' = AList.delete notification_id (active_notifications c)"
    by simp
  then have gone: "notification_id \<notin> fst ` set (active_notifications c')"
    by (simp add: delete_notin_dom)
  have rest: "case callback_escapes n reason of
         None \<Rightarrow>
           result = Inr True \<and>
           dismissed_count (stats c') = dismissed_count (stats c) + 1 \<and>
           (\<forall>cb e. dismiss_callback n = Some cb \<and> cb reason = Raises e \<longrightarrow>
              callback_calls c' = callback_calls c @ [(nid n, reason)] \<and>
              error_log c' = error_log c @ [ErrorInDismissCallback e])
       | Some name \<Rightarrow>
           result = Inl (BaseException name) \<and> stats c' = stats c \<and>
           error_log c' = error_log c"
  proof (cases "callback_escapes n reason")
    case None
    from priv_dismiss_found [OF assms None] r
    have a: "result = Inr True" "dismissed_count (stats c') = dismissed_count (stats c) + 1"
      by simp_all
    have log: "callback_calls c' = callback_calls c @ [(nid n, reason)] \<and>
        error_log c' = error_log c @ [ErrorInDismissCallback e]"
      if "dismiss_callback n = Some cb" "cb reason = Raises e" for cb e
      using priv_dismiss_cases [of c notification_id reason] assms None r that
      by (auto simp: count_dismissed_frame run_dismiss_callback_calls run_dismiss_callback_log)
    from a log None show ?thesis by auto
  next
    case (Some name)
    from priv_dismiss_escapes [OF assms Some] r Some show ?thesis by simp
  qed
  from r gone rest show ?thesis by (auto simp: dismiss_notification_def)
qed

theorem dismiss_survives_callback_witness:
  "map_of (active_notifications raising_center) ''a'' = Some raising_notification \<and>
   dismiss_callback raising_notification = Some (\<lambda>reason. Raises ''boom'') \<and>
   fst (dismiss_notification raising_center ''a'' ''user_dismissed'') = Inr True \<and>
   ''a'' \<notin> fst ` set (active_notifications
       (snd (dismiss_notification raising_center ''a'' ''user_dismissed''))) \<and>
   dismissed_count (stats (snd (dismiss_notification raising_center ''a'' ''user_dismissed''))) = 1 \<and>
   error_log (snd (dismiss_notification raising_center ''a'' ''user_dismissed''))
     = [ErrorInDismissCallback ''boom'']"
proof -
  have h: "map_of (active_notifications raising_center) ''a'' = Some raising_notification"
    by (simp add: raising_center_active)
  from dismiss_survives_callback [OF h, of "''user_dismissed''"]
  obtain result c' where
    c': "dismiss_notification raising_center ''a'' ''user_dismissed'' = (result, c')"
    and gone: "''a'' \<notin> fst ` set (active_notifications c')"
    and rest: "case callback_escapes raising_notification ''user_dismissed'' of
         None \<Rightarrow>
           result = Inr True \<and>
           dismissed_count (stats c') = dismissed_count (stats raising_center) + 1 \<and>
           (\<forall>cb e. dismiss_callback raising_notification = Some cb
              \<and> cb ''user_dismissed'' = Raises e \<longrightarrow>
              callback_calls c'
                = callback_calls raising_center @ [(nid raising_notification, ''user_dismissed'')] \<and>
              error_log c' = error_log raising_center @ [ErrorInDismissCallback e])
       | Some name \<Rightarrow>
           result = Inl (BaseException name) \<and> stats c' = stats raising_center \<and>
           error_log c' = error_log raising_center"
    by blast
  from rest have res: "result = Inr True"
    and cnt: "dismissed_count (stats c') = dismissed_count (stats raising_center) + 1"
    and log: "\<forall>cb e. dismiss_callback raising_notification = Some cb
              \<and> cb ''user_dismissed'' = Raises e \<longrightarrow>
              error_log c' = error_log raising_center @ [ErrorInDismissCallback e]"
    by (simp_all add: raising_notification_caught)
  from log have "error_log c' = error_log raising_center @ [ErrorInDismissCallback ''boom'']"
    by (simp add: raising_notification_caught)
  with h c' gone res cnt show ?thesis
    by (simp add: raising_center_stats raising_center_log raising_notification_caught)
qed

subsection \<open>Cost alerts\<close>

lemma round_magnitude_mono:
  assumes "0 \<le> x" "x \<le> y" "round_magnitude y = Some b"
  shows "\<exists>a. round_magnitude x = Some a \<and> a \<le> b"
  using assms round_to_quantum_mono [OF assms(1,2)]
  by (auto simp: round_magnitude_def split: if_splits)


text \<open>Numbers that are doubles, and the double nearest to eight tenths.\<close>

lemma round_to_quantum_values:
  "round_to_quantum 0 = 0" "round_to_quantum 1 = 1" "round_to_quantum 80 = 80"
  "round_to_quantum 100 = 100" "round_to_quantum 1000 = 1000"
  "round_to_quantum (4 / 5) = 7205759403792794 / 9007199254740992"
  by (simp_all add: round_defs)

lemma round_magnitude_values:
  "round_magnitude 0 = Some 0" "round_magnitude 1 = Some 1" "round_magnitude 100 = Some 100"
  "round_magnitude 1000 = Some 1000"
  by (simp_all add: round_magnitude_def round_to_quantum_values)

text \<open>A magnitude of \<open>2 ^ 1024\<close> or more is beyond the doubles.\<close>

lemma round_magnitude_overflow:
  assumes "2 ^ 1024 \<le> x"
  shows "round_magnitude x = None"
proof -
  have "binary_exponent (2 ^ 1024) = 1024"
    by (rule binary_exponent_unique) simp_all
  then have "round_to_quantum (2 ^ 1024) = 2 ^ 1024"
    by (simp add: round_to_quantum_def quantum_def round_half_even_def)
  moreover have "round_to_quantum (2 ^ 1024) \<le> round_to_quantum x"
    using assms by (intro round_to_quantum_mono) simp_all
  ultimately have "2 ^ 1024 \<le> round_to_quantum x" by (simp only:)
  then show ?thesis by (simp add: round_magnitude_def)
qed

lemma round_magnitude_huge: "round_magnitude (2 ^ 1024) = None"
  by (rule round_magnitude_overflow) simp

lemma float_of_int_huge: "float_of_int (2 ^ 1024) = Inl OverflowError"
proof -
  have "round_magnitude \<bar>of_int (2 ^ 1024)\<bar> = None" using round_magnitude_huge by simp
  then show ?thesis by (simp add: float_of_int_def)
qed


lemma float_of_int_error: "float_of_int i = Inl e \<Longrightarrow> e = OverflowError"
  by (simp add: float_of_int_def split: option.splits)

lemma float_of_int_zero:
  assumes "float_of_int i = Inr y"
  shows "float_is_zero y = (i = 0)"
proof (cases "i = 0")
  case True
  with assms show ?thesis by (auto simp: float_of_int_def round_magnitude_values)
next
  case False
  from assms obtain m where m: "round_magnitude \<bar>of_int i\<bar> = Some m" "y = FloatFinite (i < 0) m"
    by (auto simp: float_of_int_def split: option.splits)
  from False have "(1::real) \<le> \<bar>of_int i\<bar>" by (simp add: abs_if)
  then have "round_to_quantum 1 \<le> round_to_quantum \<bar>of_int i\<bar>"
    by (intro round_to_quantum_mono) simp_all
  with m(1) have "1 \<le> m"
    by (simp add: round_to_quantum_values round_magnitude_def split: if_splits)
  with m(2) False show ?thesis by simp
qed

text \<open>When the division raises \<^verbatim>\<open>ZeroDivisionError\<close>.\<close>

lemma py_truediv_zero_division:
  "(py_truediv a b = Inl ZeroDivisionError) =
     (number_is_zero b \<and>
      \<not> (\<exists>i y. a = PyInt i \<and> b = PyFloat y \<and> float_of_int i = Inl OverflowError))"
proof (cases a)
  case (PyInt i)
  show ?thesis
  proof (cases b)
    case (PyInt j)
    with \<open>a = PyInt i\<close> show ?thesis by (simp split: option.splits)
  next
    case (PyFloat y)
    show ?thesis
    proof (cases "float_of_int i")
      case (Inl e)
      with float_of_int_error [OF Inl] PyFloat \<open>a = PyInt i\<close> show ?thesis by simp
    next
      case (Inr x)
      with PyFloat \<open>a = PyInt i\<close> show ?thesis by (simp add: float_div_def)
    qed
  qed
next
  case (PyFloat x)
  show ?thesis
  proof (cases b)
    case (PyInt j)
    show ?thesis
    proof (cases "float_of_int j")
      case (Inl e)
      have "j \<noteq> 0"
      proof
        assume "j = 0"
        with Inl show False by (simp add: float_of_int_def round_magnitude_values)
      qed
      with Inl float_of_int_error [OF Inl] PyInt \<open>a = PyFloat x\<close> show ?thesis by simp
    next
      case (Inr y)
      with float_of_int_zero [OF Inr] PyInt \<open>a = PyFloat x\<close> show ?thesis
        by (simp add: float_div_def)
    qed
  next
    case (PyFloat y)
    with \<open>a = PyFloat x\<close> show ?thesis by (simp add: float_div_def)
  qed
qed


lemma cost_percentage_error:
  "(cost_percentage a b = Inl e) = (py_truediv a b = Inl e)"
  by (simp add: cost_percentage_def split: sum.splits)

lemma format_number_error: "format_number env digits x = Inl e \<Longrightarrow> e = OverflowError"
  by (cases x) (auto simp: format_number_def split: sum.splits dest: float_of_int_error)

lemma cost_alert_message_error:
  "cost_alert_message env percentage current_cost threshold period = Inl e \<Longrightarrow> e = OverflowError"
  by (auto simp: cost_alert_message_def split: sum.splits dest: format_number_error)

text \<open>The exceptions of \<open>show_notification\<close>.\<close>

lemma entry_lt_raises: "entry_lt x y = Inl e \<Longrightarrow> e = TypeError"
  by (cases x, cases y) (simp split: if_splits)

lemma siftdown_raises: "fst (siftdown heap startpos pos) = Some e \<Longrightarrow> e = TypeError"
proof (induction heap startpos pos rule: siftdown.induct)
  case (1 heap startpos pos)
  from "1.prems" show ?case
    by (subst (asm) siftdown.simps)
       (auto split: if_splits sum.splits dest: entry_lt_raises "1.IH")
qed

lemma pq_put_raises: "fst (pq_put x q) = Some e \<Longrightarrow> e = TypeError"
  by (simp add: pq_put_def heappush_def siftdown_raises)

lemma enqueue_not_zero_division: "fst (enqueue c n) \<noteq> Inl ZeroDivisionError"
  using pq_put_raises [of "(queue_key_of n, n)" "notification_queue c"]
  by (auto simp: enqueue_def split: prod.splits option.splits)

lemma ensure_id_not_zero_division: "ensure_id env n \<noteq> Inl ZeroDivisionError"
proof -
  have "int_of_float x \<noteq> Inl ZeroDivisionError" for x by (cases x) simp_all
  then have "generated_id env n \<noteq> Inl ZeroDivisionError"
    by (cases "int_of_float (float_mul (float_of_real (time_now env)) (FloatFinite False 1000))")
       (auto simp: generated_id_def)
  then show ?thesis by (auto simp: ensure_id_def split: sum.splits)
qed

lemma dismiss_replaced_not_zero_division:
  "fst (dismiss_replaced c n) \<noteq> Some ZeroDivisionError"
proof (cases "replace_target c n")
  case None
  then show ?thesis by (simp add: dismiss_replaced_def)
next
  case (Some r)
  from priv_dismiss_cases [of c r "''replaced''"] Some show ?thesis
    by (auto simp: dismiss_replaced_def)
qed

lemma show_notification_not_zero_division:
  "fst (show_notification env c n) \<noteq> Inl ZeroDivisionError"
proof (cases "ensure_id env n")
  case (Inl e)
  with ensure_id_not_zero_division [of env n] show ?thesis
    by (auto simp: show_notification_def)
next
  case (Inr n')
  obtain err c1 where d: "dismiss_replaced c n' = (err, c1)" by (cases "dismiss_replaced c n'")
  with dismiss_replaced_not_zero_division [of c n'] have "err \<noteq> Some ZeroDivisionError" by simp
  with Inr d enqueue_not_zero_division [of c1 n'] show ?thesis
    by (cases err) (auto simp: show_notification_def)
qed

lemma show_cost_alert_zero_division:
  "(fst (show_cost_alert env c current_cost threshold period) = Inl ZeroDivisionError) =
     (py_truediv current_cost threshold = Inl ZeroDivisionError)"
proof (cases "cost_percentage current_cost threshold")
  case (Inl e)
  then have "py_truediv current_cost threshold = Inl e" by (simp add: cost_percentage_error)
  with Inl show ?thesis by (simp add: show_cost_alert_def)
next
  case (Inr percentage)
  then have ok: "py_truediv current_cost threshold \<noteq> Inl ZeroDivisionError"
    by (auto simp: cost_percentage_def split: sum.splits)
  show ?thesis
  proof (cases "cost_alert_message env percentage current_cost threshold period")
    case (Inl e)
    with cost_alert_message_error [OF Inl] Inr ok show ?thesis
      by (simp add: show_cost_alert_def)
  next
    case (Inr body)
    with \<open>cost_percentage current_cost threshold = Inr percentage\<close> ok
      show_notification_not_zero_division show ?thesis
      by (simp add: show_cost_alert_def)
  qed
qed

text \<open>
  C10, as stated, fails for an integer cost beyond the doubles and a float threshold of
  zero: the cost is converted to a float before the division is attempted, and the
  conversion raises \<^verbatim>\<open>OverflowError\<close>. (Still no notification is created and the state
  is unchanged.)
\<close>

theorem zero_threshold_overflow_counterexample:
  "number_is_zero float_zero \<and>
   show_cost_alert example_env (new_center default_config) huge_integer float_zero ''daily''
     = (Inl OverflowError, new_center default_config)"
  using float_of_int_huge
  by (simp add: float_zero_def huge_integer_def show_cost_alert_def cost_percentage_def)

text \<open>
  C10, amended. \<^verbatim>\<open>show_cost_alert\<close> with a threshold of zero raises before any
  notification is created or queued and leaves the state of the centre as it was. The
  exception is \<^verbatim>\<open>ZeroDivisionError\<close> for an integer zero and for a float zero with a
  float cost; for a float zero with an integer cost it is \<^verbatim>\<open>OverflowError\<close> when the
  cost is beyond the doubles and \<^verbatim>\<open>ZeroDivisionError\<close> otherwise. The call raises
  \<^verbatim>\<open>ZeroDivisionError\<close> for no threshold other than zero.
\<close>

theorem show_cost_alert_zero_threshold:
  "show_cost_alert env c current_cost (PyInt 0) period = (Inl ZeroDivisionError, c) \<and>
   show_cost_alert env c (PyFloat x) (PyFloat (FloatFinite s 0)) period
     = (Inl ZeroDivisionError, c) \<and>
   show_cost_alert env c (PyInt i) (PyFloat (FloatFinite s 0)) period
     = (Inl (if float_of_int i = Inl OverflowError then OverflowError else ZeroDivisionError), c) \<and>
   (fst (show_cost_alert env c current_cost threshold period) = Inl ZeroDivisionError) =
     (number_is_zero threshold \<and>
      \<not> (\<exists>i y. current_cost = PyInt i \<and> threshold = PyFloat y \<and>
             float_of_int i = Inl OverflowError))"
proof -
  have "py_truediv current_cost (PyInt 0) = Inl ZeroDivisionError"
    by (simp add: py_truediv_zero_division)
  then have a: "show_cost_alert env c current_cost (PyInt 0) period = (Inl ZeroDivisionError, c)"
    by (simp add: show_cost_alert_def cost_percentage_def)
  have b: "show_cost_alert env c (PyFloat x) (PyFloat (FloatFinite s 0)) period
     = (Inl ZeroDivisionError, c)"
    by (simp add: show_cost_alert_def cost_percentage_def float_div_def)
  have d: "show_cost_alert env c (PyInt i) (PyFloat (FloatFinite s 0)) period
     = (Inl (if float_of_int i = Inl OverflowError then OverflowError else ZeroDivisionError), c)"
  proof (cases "float_of_int i")
    case (Inl e)
    with float_of_int_error [OF Inl] show ?thesis
      by (simp add: show_cost_alert_def cost_percentage_def)
  next
    case (Inr y)
    then show ?thesis
      by (simp add: show_cost_alert_def cost_percentage_def float_div_def)
  qed
  from a b d show ?thesis
    by (simp add: show_cost_alert_zero_division py_truediv_zero_division)
qed











subsection \<open>Evaluation of the example run\<close>

lemmas run_defs =
  example_defs small_config_def urgent_first_def low_second_def normal_third_def
  show_events_def three_shown_def delivery_events_def delivered_def dismiss_notification_def
  priv_dismiss_notification_def run_dismiss_callback_def count_dismissed_def requeue_def

lemma three_shown_eval:
  "three_shown = (new_center small_config)\<lparr>notification_queue :=
     [(queue_key_of urgent_first, urgent_first), (queue_key_of low_second, low_second),
      (queue_key_of normal_third, normal_third)], unfinished_tasks := 3\<rparr>"
  by (simp add: run_defs)

lemma delivered_eval:
  "map fst (active_notifications delivered) = [''l'']"
  "map nid (notification_history delivered) = [''n'', ''l'']"
  "tray_calls delivered =
     [TrayShowNotification (tray_projection urgent_first),
      TrayShowNotification (tray_projection normal_third),
      TrayShowNotification (tray_projection low_second)]"
  "notification_queue delivered = []"
  by (simp_all add: run_defs)

subsection \<open>The bounds on the active set and on the history\<close>

text \<open>
  C4. In every state a centre reaches from its construction, the active set has at most
  \<^verbatim>\<open>max_simultaneous\<close> entries (under distinct keys, so that the length of the list is
  the size of the dictionary). Every event but an iteration of the worker leaves the
  active set as it is or removes entries from it, and an iteration of the worker changes
  it only when it holds fewer than \<^verbatim>\<open>max_simultaneous\<close> entries.
\<close>

theorem active_set_within_cap:
  assumes "0 \<le> max_simultaneous cfg"
  shows "int (length (active_notifications (run (new_center cfg) evs))) \<le> max_simultaneous cfg \<and>
    distinct (map fst (active_notifications (run (new_center cfg) evs))) \<and>
    (\<forall>env ev c. ev \<noteq> WorkerIteration \<longrightarrow>
       (\<exists>P. active_notifications (event_step env ev c) = filter P (active_notifications c))) \<and>
    (\<forall>c. active_notifications (process_notification_queue c) \<noteq> active_notifications c \<longrightarrow>
       int (length (active_notifications c)) < max_simultaneous (config c))"
proof -
  let ?inv = "\<lambda>c::center. int (length (active_notifications c)) \<le> max_simultaneous (config c)"
  have "?inv (run (new_center cfg) evs)"
  proof (rule run_invariant [where P = ?inv])
    show "?inv (new_center cfg)" using assms by (simp add: new_center_def)
  next
    fix env ev c'
    assume "?inv c'"
    then show "?inv (event_step env ev c')" by (rule event_step_capacity)
  qed
  then have bound: "int (length (active_notifications (run (new_center cfg) evs)))
      \<le> max_simultaneous cfg"
    by (simp add: run_config new_center_def)
  have keys: "distinct (map fst (active_notifications (run (new_center cfg) evs)))"
    using ids_ok_run [of cfg evs] by (simp add: ids_ok_def)
  have others: "\<exists>P. active_notifications (event_step env ev c) = filter P (active_notifications c)"
    if "ev \<noteq> WorkerIteration" for env ev c
    using event_step_effect [OF that, of env c] by blast
  have worker: "int (length (active_notifications c)) < max_simultaneous (config c)"
    if "active_notifications (process_notification_queue c) \<noteq> active_notifications c" for c
    using process_notification_queue_cases [of c] that
    by (auto simp: requeue_fields at_capacity_def)
  from bound keys others worker show ?thesis by blast
qed

theorem active_set_within_cap_witness:
  "0 \<le> max_simultaneous small_config \<and>
   int (length (active_notifications delivered)) \<le> max_simultaneous small_config \<and>
   map fst (active_notifications delivered) = [''l''] \<and>
   max_simultaneous small_config = 1"
proof -
  have h: "0 \<le> max_simultaneous small_config"
    by (simp add: small_config_def default_config_def)
  from active_set_within_cap [OF h, of "show_events @ delivery_events"]
  have "int (length (active_notifications delivered)) \<le> max_simultaneous small_config"
    by (simp add: delivered_def)
  with h show ?thesis
    by (simp add: delivered_eval small_config_def default_config_def)
qed

text \<open>
  C7. In every state a centre reaches from its construction, the history has at most
  \<^verbatim>\<open>history_limit\<close> entries. Displaying a notification appends it and, when that makes
  the history longer than the limit, drops the entry at index 0. No event but an
  iteration of the worker changes the history, and an iteration changes it only by
  displaying.
\<close>

theorem history_bounded_fifo:
  assumes "0 \<le> history_limit cfg"
  shows "int (length (notification_history (run (new_center cfg) evs))) \<le> history_limit cfg \<and>
    (\<forall>c n. notification_history (display_notification c n) =
       (if int (length (notification_history c)) < history_limit (config c)
        then notification_history c @ [n]
        else tl (notification_history c @ [n]))) \<and>
    (\<forall>env ev c. ev \<noteq> WorkerIteration \<longrightarrow>
       notification_history (event_step env ev c) = notification_history c) \<and>
    (\<forall>c. notification_history (process_notification_queue c) = notification_history c \<or>
       (\<exists>n. notification_history (process_notification_queue c) = append_history c n))"
proof -
  let ?inv = "\<lambda>c::center. int (length (notification_history c)) \<le> history_limit (config c)"
  have "?inv (run (new_center cfg) evs)"
  proof (rule run_invariant [where P = ?inv])
    show "?inv (new_center cfg)" using assms by (simp add: new_center_def)
  next
    fix env ev c'
    assume "?inv c'"
    then show "?inv (event_step env ev c')" by (rule event_step_history)
  qed
  then have bound: "int (length (notification_history (run (new_center cfg) evs)))
      \<le> history_limit cfg"
    by (simp add: run_config new_center_def)
  have fifo: "notification_history (display_notification c n) =
       (if int (length (notification_history c)) < history_limit (config c)
        then notification_history c @ [n]
        else tl (notification_history c @ [n]))" for c n
    by (simp add: display_notification_fields append_history_def Let_def)
  have others: "notification_history (event_step env ev c) = notification_history c"
    if "ev \<noteq> WorkerIteration" for env ev c
    using event_step_effect [OF that, of env c] by blast
  have worker: "notification_history (process_notification_queue c) = notification_history c \<or>
       (\<exists>n. notification_history (process_notification_queue c) = append_history c n)" for c
    using process_notification_queue_cases [of c]
    by (auto simp: requeue_fields display_notification_fields task_done_fields
        append_history_def)
  from bound fifo others worker show ?thesis by blast
qed

theorem history_bounded_fifo_witness:
  "0 \<le> history_limit small_config \<and>
   int (length (notification_history delivered)) \<le> history_limit small_config \<and>
   map nid (notification_history delivered) = [''n'', ''l''] \<and>
   history_limit small_config = 2"
proof -
  have h: "0 \<le> history_limit small_config"
    by (simp add: small_config_def default_config_def)
  from history_bounded_fifo [OF h, of "show_events @ delivery_events"]
  have "int (length (notification_history delivered)) \<le> history_limit small_config"
    by (simp add: delivered_def)
  with h show ?thesis
    by (simp add: delivered_eval small_config_def default_config_def)
qed

subsection \<open>Replacement\<close>

lemma quiet_center_active:
  "active_notifications quiet_center = [(''a'', raising_notification)]"
  "do_not_disturb quiet_center"
  "dismissed_count (stats quiet_center) = 0"
  by (simp_all add: quiet_center_def set_do_not_disturb_def raising_center_active
      raising_center_stats)

lemma quiet_center_reached:
  "quiet_center = run (new_center default_config)
       [(example_env, ShowNotification raising_notification), (example_env, WorkerIteration),
        (example_env, SetDoNotDisturb True None)]"
  by (simp add: quiet_center_def raising_center_def)

text \<open>
  C3, as stated, fails where do-not-disturb suppresses the call: \<^verbatim>\<open>show_notification\<close>
  returns before it looks at \<^verbatim>\<open>replace_id\<close>. With do-not-disturb set, a notification of
  normal priority whose \<^verbatim>\<open>replace_id\<close> names the active notification \<open>a\<close> leaves the
  centre as it was: \<open>a\<close> is still active and nothing was dismissed.
\<close>

theorem replace_suppressed_counterexample:
  "replace_id replacing_notification = Some ''a'' \<and>
   map_of (active_notifications quiet_center) ''a'' = Some raising_notification \<and>
   show_notification example_env quiet_center replacing_notification
     = (Inr ''b'', quiet_center) \<and>
   ''a'' \<in> fst ` set (active_notifications quiet_center) \<and>
   dismissed_count (stats quiet_center) = 0"
  by (simp add: quiet_center_active show_notification_def blocked_by_dnd_def
      replacing_notification_def example_notification_def new_notification_def ensure_id_def)

text \<open>
  C3, amended. In every state a centre reaches from its construction, a call of
  \<^verbatim>\<open>show_notification\<close> that do-not-disturb does not suppress and whose notification
  carries a \<^verbatim>\<open>replace_id\<close> naming an active notification first takes that notification
  out of the active set and calls its dismiss callback, if any, with reason \<open>replaced\<close>;
  the queue is still the old one. When the callback returns or raises an instance of
  \<^verbatim>\<open>Exception\<close> (or there is none), the dismissed counter rises by one and the new
  notification is then enqueued on the resulting state; the call itself adds nothing to
  the active set. When the callback raises outside \<^verbatim>\<open>Exception\<close>, that exception leaves
  \<^verbatim>\<open>show_notification\<close>: the counters are as they were and nothing is enqueued.
\<close>

theorem replace_target_dismissed_first:
  assumes reach: "c = run (new_center cfg) evs"
    and passed: "\<not> blocked_by_dnd c n"
    and ident: "ensure_id env n = Inr n'"
    and names: "replace_id n = Some r"
    and active: "map_of (active_notifications c) r = Some target"
  shows "\<exists>result c1. priv_dismiss_notification c r ''replaced'' = (result, c1) \<and>
      r \<notin> fst ` set (active_notifications c1) \<and>
      callback_calls c1 =
        (case dismiss_callback target of
           None \<Rightarrow> callback_calls c
         | Some cb \<Rightarrow> callback_calls c @ [(nid target, ''replaced'')]) \<and>
      notification_queue c1 = notification_queue c \<and>
      (case callback_escapes target ''replaced'' of
         None \<Rightarrow>
           result = Inr True \<and>
           dismissed_count (stats c1) = dismissed_count (stats c) + 1 \<and>
           show_notification env c n = enqueue c1 n' \<and>
           active_notifications (snd (show_notification env c n)) = active_notifications c1 \<and>
           notification_queue (snd (show_notification env c n)) =
             snd (pq_put (queue_key_of n', n') (notification_queue c))
       | Some name \<Rightarrow>
           result = Inl (BaseException name) \<and> stats c1 = stats c \<and>
           show_notification env c n = (Inl (BaseException name), c1))"
proof -
  obtain result c1 where p: "priv_dismiss_notification c r ''replaced'' = (result, c1)"
    by (cases "priv_dismiss_notification c r ''replaced''")
  from active have key: "r \<in> fst ` set (active_notifications c)"
    by (metis map_of_eq_None_iff option.distinct(1))
  from reach have "ids_ok c" by (simp add: ids_ok_run)
  then have "[] \<notin> fst ` set (active_notifications c)" by (simp add: ids_ok_def)
  with key have nonempty: "r \<noteq> []" by blast
  from names nonempty active ident have target: "replace_target c n' = Some r"
    by (simp add: replace_target_def ensure_id_fields)
  from priv_dismiss_active [of c r "''replaced''"] p
  have gone: "r \<notin> fst ` set (active_notifications c1)"
    by (simp add: delete_notin_dom)
  from priv_dismiss_frame [of c r "''replaced''"] p
  have queue: "notification_queue c1 = notification_queue c" by simp
  have calls: "callback_calls c1 =
        (case dismiss_callback target of
           None \<Rightarrow> callback_calls c
         | Some cb \<Rightarrow> callback_calls c @ [(nid target, ''replaced'')])"
    using priv_dismiss_cases [of c r "''replaced''"] active p
    by (auto simp: count_dismissed_frame run_dismiss_callback_calls split: option.splits)
  have rest: "case callback_escapes target ''replaced'' of
         None \<Rightarrow>
           result = Inr True \<and>
           dismissed_count (stats c1) = dismissed_count (stats c) + 1 \<and>
           show_notification env c n = enqueue c1 n' \<and>
           active_notifications (snd (show_notification env c n)) = active_notifications c1 \<and>
           notification_queue (snd (show_notification env c n)) =
             snd (pq_put (queue_key_of n', n') (notification_queue c))
       | Some name \<Rightarrow>
           result = Inl (BaseException name) \<and> stats c1 = stats c \<and>
           show_notification env c n = (Inl (BaseException name), c1)"
  proof (cases "callback_escapes target ''replaced''")
    case None
    from priv_dismiss_found [OF active None] p
    have a: "result = Inr True" "dismissed_count (stats c1) = dismissed_count (stats c) + 1"
      by simp_all
    with p target have "dismiss_replaced c n' = (None, c1)" by (simp add: dismiss_replaced_def)
    with ident passed have "show_notification env c n = enqueue c1 n'"
      by (simp add: show_notification_passed)
    with a queue None show ?thesis by (simp add: enqueue_frame)
  next
    case (Some name)
    from priv_dismiss_escapes [OF active Some] p
    have a: "result = Inl (BaseException name)" "stats c1 = stats c" by simp_all
    with p target have "dismiss_replaced c n' = (Some (BaseException name), c1)"
      by (simp add: dismiss_replaced_def)
    with ident passed have "show_notification env c n = (Inl (BaseException name), c1)"
      by (simp add: show_notification_passed)
    with a Some show ?thesis by simp
  qed
  from p gone calls queue rest show ?thesis by blast
qed

lemma interrupting_center_reached:
  "interrupting_center = run (new_center default_config)
       [(example_env, ShowNotification interrupting_notification),
        (example_env, WorkerIteration)]"
  by (simp add: interrupting_center_def)

theorem replace_target_dismissed_first_witness:
  "quiet_center = run (new_center default_config)
       [(example_env, ShowNotification raising_notification), (example_env, WorkerIteration),
        (example_env, SetDoNotDisturb True None)] \<and>
   \<not> blocked_by_dnd quiet_center critical_replacing \<and>
   ensure_id example_env critical_replacing = Inr critical_replacing \<and>
   replace_id critical_replacing = Some ''a'' \<and>
   map_of (active_notifications quiet_center) ''a'' = Some raising_notification \<and>
   callback_escapes raising_notification ''replaced'' = None \<and>
   fst (show_notification example_env quiet_center critical_replacing) = Inr ''b'' \<and>
   active_notifications (snd (show_notification example_env quiet_center critical_replacing)) = [] \<and>
   map (\<lambda>e. nid (snd e))
     (notification_queue (snd (show_notification example_env quiet_center critical_replacing)))
     = [''b''] \<and>
   dismissed_count (stats (snd (show_notification example_env quiet_center critical_replacing))) = 1 \<and>
   interrupting_center = run (new_center default_config)
       [(example_env, ShowNotification interrupting_notification),
        (example_env, WorkerIteration)] \<and>
   \<not> blocked_by_dnd interrupting_center replacing_interrupting \<and>
   ensure_id example_env replacing_interrupting = Inr replacing_interrupting \<and>
   replace_id replacing_interrupting = Some ''k'' \<and>
   map_of (active_notifications interrupting_center) ''k'' = Some interrupting_notification \<and>
   callback_escapes interrupting_notification ''replaced'' = Some ''KeyboardInterrupt'' \<and>
   fst (show_notification example_env interrupting_center replacing_interrupting)
     = Inl (BaseException ''KeyboardInterrupt'') \<and>
   active_notifications (snd (show_notification example_env interrupting_center
       replacing_interrupting)) = [] \<and>
   notification_queue (snd (show_notification example_env interrupting_center
       replacing_interrupting)) = [] \<and>
   dismissed_count (stats (snd (show_notification example_env interrupting_center
       replacing_interrupting))) = 0"
proof -
  have reach: "quiet_center = run (new_center default_config)
       [(example_env, ShowNotification raising_notification), (example_env, WorkerIteration),
        (example_env, SetDoNotDisturb True None)]"
    by (rule quiet_center_reached)
  have passed: "\<not> blocked_by_dnd quiet_center critical_replacing"
    by (simp add: blocked_by_dnd_def critical_replacing_def example_notification_def
        new_notification_def)
  have ident: "ensure_id example_env critical_replacing = Inr critical_replacing"
    and nid_b: "nid critical_replacing = ''b''"
    by (simp_all add: ensure_id_def critical_replacing_def example_notification_def
        new_notification_def)
  have names: "replace_id critical_replacing = Some ''a''"
    by (simp add: critical_replacing_def)
  have active: "map_of (active_notifications quiet_center) ''a'' = Some raising_notification"
    by (simp add: quiet_center_active)
  have q: "notification_queue quiet_center = []"
    by (simp add: quiet_center_def set_do_not_disturb_def example_defs)
  from replace_target_dismissed_first [OF reach passed ident names active]
  obtain result c1 where
    c1: "priv_dismiss_notification quiet_center ''a'' ''replaced'' = (result, c1)"
    and gone: "''a'' \<notin> fst ` set (active_notifications c1)"
    and rest: "case callback_escapes raising_notification ''replaced'' of
         None \<Rightarrow>
           result = Inr True \<and>
           dismissed_count (stats c1) = dismissed_count (stats quiet_center) + 1 \<and>
           show_notification example_env quiet_center critical_replacing
             = enqueue c1 critical_replacing \<and>
           active_notifications (snd (show_notification example_env quiet_center
               critical_replacing)) = active_notifications c1 \<and>
           notification_queue (snd (show_notification example_env quiet_center
               critical_replacing)) =
             snd (pq_put (queue_key_of critical_replacing, critical_replacing)
                    (notification_queue quiet_center))
       | Some name \<Rightarrow>
           result = Inl (BaseException name) \<and> stats c1 = stats quiet_center \<and>
           show_notification example_env quiet_center critical_replacing
             = (Inl (BaseException name), c1)"
    by blast
  from priv_dismiss_active [of quiet_center "''a''" "''replaced''"] c1
  have empty: "active_notifications c1 = []" by (simp add: quiet_center_active)
  from rest [unfolded raising_notification_caught option.case]
  have shown: "show_notification example_env quiet_center critical_replacing
             = enqueue c1 critical_replacing"
    and cnt: "dismissed_count (stats c1) = dismissed_count (stats quiet_center) + 1"
    and act: "active_notifications (snd (show_notification example_env quiet_center
               critical_replacing)) = active_notifications c1"
    and que: "notification_queue (snd (show_notification example_env quiet_center
               critical_replacing)) =
             snd (pq_put (queue_key_of critical_replacing, critical_replacing)
                    (notification_queue quiet_center))"
    by blast+
  from priv_dismiss_frame [of quiet_center "''a''" "''replaced''"] c1 q
  have q1: "notification_queue c1 = []" by simp
  have first: "fst (show_notification example_env quiet_center critical_replacing) = Inr ''b'' \<and>
   active_notifications (snd (show_notification example_env quiet_center critical_replacing)) = [] \<and>
   map (\<lambda>e. nid (snd e))
     (notification_queue (snd (show_notification example_env quiet_center critical_replacing)))
     = [''b''] \<and>
   dismissed_count (stats (snd (show_notification example_env quiet_center critical_replacing))) = 1"
    using act que empty cnt
    by (simp add: shown enqueue_def q q1 pq_put_empty nid_b quiet_center_active)
  have reach2: "interrupting_center = run (new_center default_config)
       [(example_env, ShowNotification interrupting_notification),
        (example_env, WorkerIteration)]"
    by (rule interrupting_center_reached)
  have passed2: "\<not> blocked_by_dnd interrupting_center replacing_interrupting"
    by (simp add: blocked_by_dnd_def interrupting_center_eval)
  have ident2: "ensure_id example_env replacing_interrupting = Inr replacing_interrupting"
    by (simp add: ensure_id_def replacing_interrupting_def example_notification_def
        new_notification_def)
  have names2: "replace_id replacing_interrupting = Some ''k''"
    by (simp add: replacing_interrupting_def)
  have active2: "map_of (active_notifications interrupting_center) ''k''
      = Some interrupting_notification"
    by (simp add: interrupting_center_eval)
  from replace_target_dismissed_first [OF reach2 passed2 ident2 names2 active2]
  obtain result2 c2 where
    c2: "priv_dismiss_notification interrupting_center ''k'' ''replaced'' = (result2, c2)"
    and rest2: "case callback_escapes interrupting_notification ''replaced'' of
         None \<Rightarrow>
           result2 = Inr True \<and>
           dismissed_count (stats c2) = dismissed_count (stats interrupting_center) + 1 \<and>
           show_notification example_env interrupting_center replacing_interrupting
             = enqueue c2 replacing_interrupting \<and>
           active_notifications (snd (show_notification example_env interrupting_center
               replacing_interrupting)) = active_notifications c2 \<and>
           notification_queue (snd (show_notification example_env interrupting_center
               replacing_interrupting)) =
             snd (pq_put (queue_key_of replacing_interrupting, replacing_interrupting)
                    (notification_queue interrupting_center))
       | Some name \<Rightarrow>
           result2 = Inl (BaseException name) \<and> stats c2 = stats interrupting_center \<and>
           show_notification example_env interrupting_center replacing_interrupting
             = (Inl (BaseException name), c2)"
    by blast
  from rest2 [unfolded interrupting_notification_escapes option.case]
  have shown2: "show_notification example_env interrupting_center
      replacing_interrupting = (Inl (BaseException ''KeyboardInterrupt''), c2)"
    and stats2: "stats c2 = stats interrupting_center"
    by blast+
  from priv_dismiss_active [of interrupting_center "''k''" "''replaced''"] c2
  have empty2: "active_notifications c2 = []" by (simp add: interrupting_center_eval)
  from priv_dismiss_frame [of interrupting_center "''k''" "''replaced''"] c2
  have q2: "notification_queue c2 = []" by (simp add: interrupting_center_eval)
  have second: "fst (show_notification example_env interrupting_center replacing_interrupting)
     = Inl (BaseException ''KeyboardInterrupt'') \<and>
   active_notifications (snd (show_notification example_env interrupting_center
       replacing_interrupting)) = [] \<and>
   notification_queue (snd (show_notification example_env interrupting_center
       replacing_interrupting)) = [] \<and>
   dismissed_count (stats (snd (show_notification example_env interrupting_center
       replacing_interrupting))) = 0"
    by (simp add: shown2 stats2 empty2 q2 interrupting_center_eval)
  from reach passed ident names active raising_notification_caught(1) [of "''replaced''"] first
    reach2 passed2 ident2 names2 active2
    interrupting_notification_escapes(1) [of "''replaced''"] second
  show ?thesis by (simp only: simp_thms)
qed

subsection \<open>Do-not-disturb\<close>

text \<open>
  With do-not-disturb set, a call of \<^verbatim>\<open>show_notification\<close> for a notification below
  critical returns the notification's identifier and leaves the whole state as it was; a
  notification of priority critical or above is in the queue after a call that returns.
\<close>

lemma do_not_disturb_suppresses:
  assumes "do_not_disturb c" "priority_value (priority n) < priority_value CRITICAL"
    and "ensure_id env n = Inr n'"
  shows "show_notification env c n = (Inr (nid n'), c)"
  using assms by (simp add: show_notification_blocked blocked_by_dnd_def)

lemma do_not_disturb_lets_pass:
  assumes "priority_value CRITICAL \<le> priority_value (priority n)"
    and "show_notification env c n = (Inr i, c')"
  shows "\<exists>n'. ensure_id env n = Inr n' \<and> i = nid n' \<and>
     (queue_key_of n', n') \<in> set (notification_queue c')"
proof (cases "ensure_id env n")
  case (Inl e)
  with assms(2) show ?thesis by (simp add: show_notification_def)
next
  case (Inr n')
  from assms(1) have nb: "\<not> blocked_by_dnd c n" by (simp add: blocked_by_dnd_def)
  obtain err c1 where d: "dismiss_replaced c n' = (err, c1)" by (cases "dismiss_replaced c n'")
  with assms(2) Inr nb have e: "err = None" "enqueue c1 n' = (Inr i, c')"
    by (cases err; simp add: show_notification_passed)+
  from e(2) have "i = nid n'" "notification_queue c' = snd (pq_put (queue_key_of n', n')
      (notification_queue c1))"
    by (auto simp: enqueue_def split: prod.splits option.splits)
  with Inr show ?thesis by (simp add: pq_put_keeps)
qed

lemma quiet_new_center_eval:
  "do_not_disturb quiet_new_center" "is_active quiet_new_center"
  "notification_queue quiet_new_center = []" "\<not> at_capacity quiet_new_center"
  "tray_calls quiet_new_center = []"
  by (simp_all add: quiet_new_center_def set_do_not_disturb_def new_center_def
      default_config_def at_capacity_def)

lemmas quiet_defs =
  quiet_urgent_def quiet_critical_b_def quiet_critical_c_def quiet_critical_d_def
  quiet_show_events_def quiet_shown_def quiet_new_center_def set_do_not_disturb_def
  four_iterations_def

lemma quiet_suppressed:
  "show_notification example_env quiet_new_center normal_third = (Inr ''n'', quiet_new_center)"
  by (simp add: show_notification_def ensure_id_def blocked_by_dnd_def quiet_new_center_eval
      normal_third_def example_notification_def new_notification_def)

lemma quiet_results:
  "fst (show_notification example_env quiet_new_center quiet_urgent) = Inr ''a''"
  "fst (show_notification example_env
          (run quiet_new_center (take 1 quiet_show_events)) quiet_critical_b) = Inr ''b''"
  "fst (show_notification example_env
          (run quiet_new_center (take 2 quiet_show_events)) quiet_critical_c) = Inr ''c''"
  "fst (show_notification example_env
          (run quiet_new_center (take 3 quiet_show_events)) quiet_critical_d) = Inr ''d''"
  by (simp_all add: quiet_defs run_defs)

lemma quiet_shown_eval:
  "do_not_disturb quiet_shown"
  "notification_queue quiet_shown =
     [(queue_key_of quiet_urgent, quiet_urgent), (queue_key_of quiet_critical_b, quiet_critical_b),
      (queue_key_of quiet_critical_c, quiet_critical_c),
      (queue_key_of quiet_critical_d, quiet_critical_d)]"
  by (simp_all add: quiet_defs run_defs)

lemma quiet_end:
  "tray_calls (run quiet_shown four_iterations) =
     [TrayShowNotification (tray_projection quiet_critical_b),
      TrayShowNotification (tray_projection quiet_critical_c)]"
  "notification_queue (run quiet_shown four_iterations) = []"
  "error_log (run quiet_shown four_iterations) =
     [ErrorProcessingQueue TypeError, ErrorProcessingQueue TypeError]"
  "map fst (active_notifications (run quiet_shown four_iterations)) = [''b'', ''c'']"
  by (simp_all add: quiet_defs run_defs)

text \<open>
  C2 does not hold of the code: a notification of priority critical or above that is
  shown under do-not-disturb does not always reach the tray. The suppressed half of the
  claim holds: on a fresh centre with do-not-disturb set, the normal notification \<open>n\<close>
  comes back with its identifier and the state is unchanged. The urgent notification \<open>a\<close>
  and the critical notifications \<open>b\<close>, \<open>c\<close> and \<open>d\<close> are then shown, \<open>b\<close> and \<open>c\<close> with
  the same timestamp; every call returns its identifier and the four are in the queue.
  The worker's first \<^verbatim>\<open>get\<close> raises \<^verbatim>\<open>TypeError\<close> where it compares \<open>b\<close> with \<open>c\<close>,
  and \<open>a\<close> is in the queue no more; the second raises as well and \<open>d\<close> is gone. The tray
  receives \<open>b\<close> and \<open>c\<close> only, and the queue is empty. The defect is the one of C1: the
  entries of the queue have no order when their priority and timestamp are equal.
\<close>

theorem passed_notifications_lost_under_dnd:
  "do_not_disturb quiet_new_center \<and>
   show_notification example_env quiet_new_center normal_third = (Inr ''n'', quiet_new_center) \<and>
   priority quiet_urgent = URGENT \<and> priority quiet_critical_d = CRITICAL \<and>
   fst (show_notification example_env quiet_new_center quiet_urgent) = Inr ''a'' \<and>
   fst (show_notification example_env
          (run quiet_new_center (take 1 quiet_show_events)) quiet_critical_b) = Inr ''b'' \<and>
   fst (show_notification example_env
          (run quiet_new_center (take 2 quiet_show_events)) quiet_critical_c) = Inr ''c'' \<and>
   fst (show_notification example_env
          (run quiet_new_center (take 3 quiet_show_events)) quiet_critical_d) = Inr ''d'' \<and>
   do_not_disturb quiet_shown \<and>
   notification_queue quiet_shown =
     [(queue_key_of quiet_urgent, quiet_urgent), (queue_key_of quiet_critical_b, quiet_critical_b),
      (queue_key_of quiet_critical_c, quiet_critical_c),
      (queue_key_of quiet_critical_d, quiet_critical_d)] \<and>
   tray_calls (run quiet_shown four_iterations) =
     [TrayShowNotification (tray_projection quiet_critical_b),
      TrayShowNotification (tray_projection quiet_critical_c)] \<and>
   notification_queue (run quiet_shown four_iterations) = [] \<and>
   error_log (run quiet_shown four_iterations) =
     [ErrorProcessingQueue TypeError, ErrorProcessingQueue TypeError]"
proof -
  have p: "priority quiet_urgent = URGENT" "priority quiet_critical_d = CRITICAL"
    by (simp_all add: quiet_defs example_notification_def new_notification_def)
  from p show ?thesis
    by (simp only: quiet_new_center_eval quiet_suppressed quiet_results quiet_shown_eval
        quiet_end simp_thms)
qed

subsection \<open>The helpers and the mapping table\<close>

lemma show_notification_tray: "tray_calls (snd (show_notification env c n)) = tray_calls c"
  using show_notification_effect [of env c n] by simp

text \<open>
  C5. For every row of the table, the notification the helper builds has the type and
  the priority of the row and the icon the row names, which the code writes with the
  prefix of the helper's family (\<open>claude_\<close> for operations, \<open>status_\<close> for components).
  \<^verbatim>\<open>show_claude_notification\<close> and \<^verbatim>\<open>show_system_status\<close> show that notification;
  \<^verbatim>\<open>show_system_status("claude", "connected", ...)\<close> builds one of type success, priority
  normal and icon \<open>status_connected\<close> and calls the tray's \<^verbatim>\<open>update_status\<close>.
\<close>

theorem helpers_match_mapping_table:
  "(\<forall>status t p i. (''operation'', status, t, p, i) \<in> set spec_mapping_table \<longrightarrow>
      ntype (claude_notification env operation status d) = t \<and>
      priority (claude_notification env operation status d) = p \<and>
      icon (claude_notification env operation status d) = Some (''claude_'' @ i)) \<and>
   (\<forall>status t p i. (''component'', status, t, p, i) \<in> set spec_mapping_table \<longrightarrow>
      ntype (system_status_notification env component status s) = t \<and>
      priority (system_status_notification env component status s) = p \<and>
      icon (system_status_notification env component status s) = Some (''status_'' @ i)) \<and>
   show_claude_notification env c operation status d =
     show_notification env
       (c\<lparr>stats := (stats c)\<lparr>claude_notifications := claude_notifications (stats c) + 1\<rparr>\<rparr>)
       (claude_notification env operation status d) \<and>
   show_system_status env c component status s =
     show_notification env
       ((update_tray_status c component status)
          \<lparr>stats := (stats c)\<lparr>system_notifications := system_notifications (stats c) + 1\<rparr>\<rparr>)
       (system_status_notification env component status s) \<and>
   ntype (system_status_notification env ''claude'' ''connected'' s) = SUCCESS \<and>
   priority (system_status_notification env ''claude'' ''connected'' s) = NORMAL \<and>
   icon (system_status_notification env ''claude'' ''connected'' s) = Some ''status_connected'' \<and>
   tray_calls (snd (show_system_status env c ''claude'' ''connected'' s))
     = tray_calls c @ [TrayUpdateStatus TRAY_ACTIVE ''Claude: connected'']"
proof (intro conjI allI impI)
  fix status t p i
  assume "(''operation'', status, t, p, i) \<in> set spec_mapping_table"
  then have "(status, t, p, i) \<in> {(''started'', CLAUDE_ACTIVITY, NORMAL, ''working''),
      (''completed'', SUCCESS, NORMAL, ''success''), (''failed'', ERROR, NORMAL, ''error'')}"
    by (simp add: spec_mapping_table_def)
  then show "ntype (claude_notification env operation status d) = t"
    "priority (claude_notification env operation status d) = p"
    "icon (claude_notification env operation status d) = Some (''claude_'' @ i)"
    by (auto simp: claude_notification_def claude_branch_def new_notification_def Let_def)
next
  fix status t p i
  assume "(''component'', status, t, p, i) \<in> set spec_mapping_table"
  then have "(status, t, p, i) \<in> {(''connected'', SUCCESS, NORMAL, ''connected''),
      (''disconnected'', WARNING, NORMAL, ''disconnected''), (''error'', ERROR, HIGH, ''error''),
      (''warning'', WARNING, NORMAL, ''warning''), (''maintenance'', INFO, NORMAL, ''maintenance'')}"
    by (simp add: spec_mapping_table_def)
  then show "ntype (system_status_notification env component status s) = t"
    "priority (system_status_notification env component status s) = p"
    "icon (system_status_notification env component status s) = Some (''status_'' @ i)"
    by (auto simp: system_status_notification_def new_notification_def dict_get_def
        status_types_def status_icons_def)
next
  show "show_claude_notification env c operation status d =
     show_notification env
       (c\<lparr>stats := (stats c)\<lparr>claude_notifications := claude_notifications (stats c) + 1\<rparr>\<rparr>)
       (claude_notification env operation status d)"
    by (simp add: show_claude_notification_def Let_def)
next
  have "stats (update_tray_status c component status) = stats c"
    by (simp add: update_tray_status_def split: option.splits)
  then show "show_system_status env c component status s =
     show_notification env
       ((update_tray_status c component status)
          \<lparr>stats := (stats c)\<lparr>system_notifications := system_notifications (stats c) + 1\<rparr>\<rparr>)
       (system_status_notification env component status s)"
    by (simp add: show_system_status_def Let_def)
next
  show "ntype (system_status_notification env ''claude'' ''connected'' s) = SUCCESS"
    "priority (system_status_notification env ''claude'' ''connected'' s) = NORMAL"
    "icon (system_status_notification env ''claude'' ''connected'' s) = Some ''status_connected''"
    by (simp_all add: system_status_notification_def new_notification_def dict_get_def
        status_types_def status_icons_def)
next
  show "tray_calls (snd (show_system_status env c ''claude'' ''connected'' s))
     = tray_calls c @ [TrayUpdateStatus TRAY_ACTIVE ''Claude: connected'']"
    by (simp add: show_system_status_def Let_def show_notification_tray update_tray_status_def
        tray_status_of_def)
qed


theorem helpers_match_mapping_table_witness:
  "(''operation'', ''started'', CLAUDE_ACTIVITY, NORMAL, ''working'') \<in> set spec_mapping_table \<and>
   ntype (claude_notification example_env ''code_analysis'' ''started'' None) = CLAUDE_ACTIVITY \<and>
   priority (claude_notification example_env ''code_analysis'' ''started'' None) = NORMAL \<and>
   icon (claude_notification example_env ''code_analysis'' ''started'' None)
     = Some ''claude_working'' \<and>
   (''component'', ''error'', ERROR, HIGH, ''error'') \<in> set spec_mapping_table \<and>
   ntype (system_status_notification example_env ''claude'' ''error'' None) = ERROR \<and>
   priority (system_status_notification example_env ''claude'' ''error'' None) = HIGH \<and>
   icon (system_status_notification example_env ''claude'' ''error'' None)
     = Some ''status_error'' \<and>
   tray_calls (snd (show_system_status example_env (new_center default_config) ''claude''
       ''connected'' (Some ''Authenticated using browser'')))
     = [TrayUpdateStatus TRAY_ACTIVE ''Claude: connected'']"
proof -
  have r1: "(''operation'', ''started'', CLAUDE_ACTIVITY, NORMAL, ''working'')
      \<in> set spec_mapping_table"
    and r2: "(''component'', ''error'', ERROR, HIGH, ''error'') \<in> set spec_mapping_table"
    by (simp_all add: spec_mapping_table_def)
  note t = helpers_match_mapping_table [where env = example_env and operation = "''code_analysis''"
      and d = None and component = "''claude''" and s = None
      and c = "new_center default_config"]
  note u = helpers_match_mapping_table [where env = example_env
      and s = "Some ''Authenticated using browser''" and c = "new_center default_config"]
  from t r1 have a: "ntype (claude_notification example_env ''code_analysis'' ''started'' None)
        = CLAUDE_ACTIVITY \<and>
      priority (claude_notification example_env ''code_analysis'' ''started'' None) = NORMAL \<and>
      icon (claude_notification example_env ''code_analysis'' ''started'' None)
        = Some (''claude_'' @ ''working'')"
    by blast
  from t r2 have b: "ntype (system_status_notification example_env ''claude'' ''error'' None) = ERROR \<and>
      priority (system_status_notification example_env ''claude'' ''error'' None) = HIGH \<and>
      icon (system_status_notification example_env ''claude'' ''error'' None)
        = Some (''status_'' @ ''error'')"
    by blast
  from u have c: "tray_calls (snd (show_system_status example_env (new_center default_config)
       ''claude'' ''connected'' (Some ''Authenticated using browser'')))
     = tray_calls (new_center default_config)
         @ [TrayUpdateStatus TRAY_ACTIVE ''Claude: connected'']"
    by blast
  from r1 r2 a b c show ?thesis by (simp add: new_center_def)
qed


subsection \<open>The order of delivery\<close>

text \<open>
  Four notifications are shown on a fresh centre: an urgent one, two normal ones with the
  same timestamp, and a low one. Every call returns its identifier. The worker's first
  \<^verbatim>\<open>get\<close> then compares the two normal entries, whose keys are equal.
\<close>

lemmas tied_defs =
  tied_urgent_def tied_normal_b_def tied_normal_c_def tied_low_def tied_show_events_def
  tied_shown_def four_iterations_def

lemma tied_results:
  "fst (show_notification example_env (new_center default_config) tied_urgent) = Inr ''a''"
  "fst (show_notification example_env
          (run (new_center default_config) (take 1 tied_show_events)) tied_normal_b) = Inr ''b''"
  "fst (show_notification example_env
          (run (new_center default_config) (take 2 tied_show_events)) tied_normal_c) = Inr ''c''"
  "fst (show_notification example_env
          (run (new_center default_config) (take 3 tied_show_events)) tied_low) = Inr ''d''"
  by (simp_all add: tied_defs run_defs)

lemma tied_shown_eval:
  "notification_queue tied_shown =
     [(queue_key_of tied_urgent, tied_urgent), (queue_key_of tied_normal_b, tied_normal_b),
      (queue_key_of tied_normal_c, tied_normal_c), (queue_key_of tied_low, tied_low)]"
  "unfinished_tasks tied_shown = 4" "error_log tied_shown = []"
  "is_active tied_shown" "active_notifications tied_shown = []"
  by (simp_all add: tied_defs run_defs)

lemma tied_gets:
  "pq_get [(queue_key_of tied_urgent, tied_urgent), (queue_key_of tied_normal_b, tied_normal_b),
      (queue_key_of tied_normal_c, tied_normal_c), (queue_key_of tied_low, tied_low)]
     = GetRaised TypeError
         [(queue_key_of tied_low, tied_low), (queue_key_of tied_normal_b, tied_normal_b),
          (queue_key_of tied_normal_c, tied_normal_c)]"
  "pq_get [(queue_key_of tied_low, tied_low), (queue_key_of tied_normal_b, tied_normal_b),
          (queue_key_of tied_normal_c, tied_normal_c)]
     = GetRaised TypeError
         [(queue_key_of tied_normal_b, tied_normal_b), (queue_key_of tied_normal_c, tied_normal_c)]"
  by (simp_all add: tied_defs run_defs)

lemma tied_end:
  "tray_calls (run tied_shown four_iterations) =
     [TrayShowNotification (tray_projection tied_normal_b),
      TrayShowNotification (tray_projection tied_normal_c)]"
  "notification_queue (run tied_shown four_iterations) = []"
  "error_log (run tied_shown four_iterations) =
     [ErrorProcessingQueue TypeError, ErrorProcessingQueue TypeError]"
  "map fst (active_notifications (run tied_shown four_iterations)) = [''b'', ''c'']"
  by (simp_all add: tied_defs run_defs)

text \<open>
  C1 does not hold of the code. The queue orders its entries
  \<^verbatim>\<open>((100 - priority.value, timestamp), notification)\<close> as tuples, and two notifications
  of the same priority and timestamp are compared themselves, which raises
  \<^verbatim>\<open>TypeError\<close> inside \<^verbatim>\<open>heappop\<close>. In the run below all four calls of
  \<^verbatim>\<open>show_notification\<close> return; the first \<^verbatim>\<open>get\<close> raises and the urgent notification
  is in the queue no more; the second \<^verbatim>\<open>get\<close> raises and the low notification, taken
  ahead of the two normal ones, is gone as well; the tray receives the two normal
  notifications only.
\<close>

theorem equal_keys_lose_notifications:
  "fst (show_notification example_env (new_center default_config) tied_urgent) = Inr ''a'' \<and>
   fst (show_notification example_env
          (run (new_center default_config) (take 1 tied_show_events)) tied_normal_b) = Inr ''b'' \<and>
   fst (show_notification example_env
          (run (new_center default_config) (take 2 tied_show_events)) tied_normal_c) = Inr ''c'' \<and>
   fst (show_notification example_env
          (run (new_center default_config) (take 3 tied_show_events)) tied_low) = Inr ''d'' \<and>
   notification_queue tied_shown =
     [(queue_key_of tied_urgent, tied_urgent), (queue_key_of tied_normal_b, tied_normal_b),
      (queue_key_of tied_normal_c, tied_normal_c), (queue_key_of tied_low, tied_low)] \<and>
   pq_get (notification_queue tied_shown)
     = GetRaised TypeError
         [(queue_key_of tied_low, tied_low), (queue_key_of tied_normal_b, tied_normal_b),
          (queue_key_of tied_normal_c, tied_normal_c)] \<and>
   pq_get [(queue_key_of tied_low, tied_low), (queue_key_of tied_normal_b, tied_normal_b),
          (queue_key_of tied_normal_c, tied_normal_c)]
     = GetRaised TypeError
         [(queue_key_of tied_normal_b, tied_normal_b), (queue_key_of tied_normal_c, tied_normal_c)] \<and>
   tray_calls (run tied_shown four_iterations) =
     [TrayShowNotification (tray_projection tied_normal_b),
      TrayShowNotification (tray_projection tied_normal_c)] \<and>
   notification_queue (run tied_shown four_iterations) = [] \<and>
   error_log (run tied_shown four_iterations) =
     [ErrorProcessingQueue TypeError, ErrorProcessingQueue TypeError]"
  by (simp only: tied_results tied_shown_eval tied_gets tied_end simp_thms)

end
